theory Spec2Isabelle
  imports Main "HOL-Library.Word"
begin

unbundle bit_operations_syntax

section \<open>The image file, bytes and \<open>struct\<close>\<close>

text \<open>
  The tool works on one disk image opened with \<open>open(disk_image, "r+b")\<close>. The image is
  a list of bytes. Every read and every write of the source is preceded by its own
  \<open>file.seek\<close>, so a read is a function of the image, the position and the count, and
  a write returns the new image. Python's \<open>read\<close> is short at the end of the file, and
  a write behind the end fills the gap with zero bytes.
\<close>

type_synonym byte = "8 word"
type_synonym image = "byte list"

text \<open>The exceptions the source can raise. Nothing in the source catches one: a raised
  exception ends the run with a traceback.\<close>

datatype exn = StructError | KeyError | TypeError | IndexError
  | UnicodeDecodeError | UnicodeEncodeError

text \<open>The messages the source prints on \<open>sys.stderr\<close> before it returns.\<close>

datatype message = NoFreeInodes | NoFreeDirectoryEntry | NoFreeDataBlocks | FileNotFound
  | DirectoryNotFound | NameTooLong

text \<open>How a command ends: it returns (with what it wrote on \<open>sys.stdout\<close>, if
  anything), it prints a message on \<open>sys.stderr\<close> and returns, it prints a message and
  calls \<open>sys.exit(1)\<close>, or an exception leaves it.\<close>

datatype 'a outcome = Returned 'a | Printed message | Exited message | Raised exn

definition BLOCK_SIZE :: nat where [simp]: "BLOCK_SIZE = 1024"
definition INODE_SIZE :: nat where [simp]: "INODE_SIZE = 32"
definition BOOT_BLOCK :: nat where [simp]: "BOOT_BLOCK = 1"
definition SUPER_BLOCK :: nat where [simp]: "SUPER_BLOCK = 1"
definition EMPTY :: nat where [simp]: "EMPTY = 0"
definition MAX_FILENAME_SHORT :: nat where [simp]: "MAX_FILENAME_SHORT = 14"
definition MAX_FILENAME_LONG :: nat where [simp]: "MAX_FILENAME_LONG = 30"
definition NUM_DIRECT_ZONES :: nat where [simp]: "NUM_DIRECT_ZONES = 7"
definition INDIRECT_ZONE_INDEX :: nat where [simp]: "INDIRECT_ZONE_INDEX = 7"
definition DOUBLE_INDIRECT_ZONE_INDEX :: nat where [simp]: "DOUBLE_INDIRECT_ZONE_INDEX = 8"

definition S_IFREG :: nat where [simp]: "S_IFREG = 0x8000"
definition S_IFDIR :: nat where [simp]: "S_IFDIR = 0x4000"
definition S_IRUSR :: nat where [simp]: "S_IRUSR = 0x100"
definition S_IWUSR :: nat where [simp]: "S_IWUSR = 0x80"
definition S_IXUSR :: nat where [simp]: "S_IXUSR = 0x40"

text \<open>\<open>file.seek(pos); file.read(n)\<close>\<close>

definition file_read :: "image \<Rightarrow> nat \<Rightarrow> nat \<Rightarrow> byte list" where
  "file_read f pos n = take n (drop pos f)"

text \<open>\<open>file.seek(pos); file.write(bs)\<close>\<close>

definition file_write :: "image \<Rightarrow> nat \<Rightarrow> byte list \<Rightarrow> image" where
  "file_write f pos bs =
     take pos f @ replicate (pos - length f) 0 @ bs @ drop (pos + length bs) f"

text \<open>Little-endian unsigned integers, as the \<open>"<"\<close> formats of \<open>struct\<close> read and write them.\<close>

fun le_nat :: "byte list \<Rightarrow> nat" where
  "le_nat [] = 0"
| "le_nat (b # bs) = unat b + 256 * le_nat bs"

fun nat_le :: "nat \<Rightarrow> nat \<Rightarrow> byte list" where
  "nat_le 0 v = []"
| "nat_le (Suc k) v = of_nat (v mod 256) # nat_le k (v div 256)"

text \<open>\<open>struct.pack\<close> of one unsigned field of \<open>k\<close> bytes raises \<open>struct.error\<close> when the
  value does not fit.\<close>

definition fits :: "nat \<Rightarrow> nat \<Rightarrow> bool" where
  "fits k v \<longleftrightarrow> v < 256 ^ k"

section \<open>Superblock\<close>

text \<open>\<open>sb_dict\<close> is a Python dictionary from field names to integers; a missing key
  raises \<open>KeyError\<close>.\<close>

type_synonym sb_dict = "string \<rightharpoonup> nat"

definition sb_get :: "sb_dict \<Rightarrow> string \<Rightarrow> exn + nat" where
  "sb_get sb k = (case sb k of None \<Rightarrow> Inl KeyError | Some v \<Rightarrow> Inr v)"

text \<open>The field table of \<open>parse_superblock\<close>, each format with its \<open>struct.calcsize\<close>.\<close>

definition sb_fields :: "(string \<times> nat) list" where
  "sb_fields =
     [(''num_inodes'', 2), (''num_zones'', 2), (''imap_blocks'', 2), (''zmap_blocks'', 2),
      (''first_data_zone'', 2), (''log_zone_size'', 2), (''max_file_size'', 4),
      (''magic'', 2), (''state'', 2)]"

text \<open>The loop of \<open>parse_superblock\<close>: \<open>struct.unpack_from\<close> raises when fewer than
  \<open>size\<close> (here \<open>fsize\<close>) bytes are left at \<open>idx\<close>.\<close>

fun parse_fields :: "byte list \<Rightarrow> nat \<Rightarrow> (string \<times> nat) list \<Rightarrow> sb_dict \<Rightarrow> exn + sb_dict" where
  "parse_fields sb_data idx [] sb = Inr sb"
| "parse_fields sb_data idx ((field_name, fsize) # fields) sb =
     (if length sb_data < idx + fsize then Inl StructError
      else parse_fields sb_data (idx + fsize) fields
             (sb(field_name \<mapsto> le_nat (take fsize (drop idx sb_data)))))"

definition parse_superblock :: "byte list \<Rightarrow> exn + sb_dict" where
  "parse_superblock sb_data = parse_fields sb_data 0 sb_fields Map.empty"

section \<open>Inodes\<close>

record inode =
  i_mode :: nat
  i_uid :: nat
  i_size :: nat
  i_time :: nat
  i_gid :: nat
  i_nlinks :: nat
  i_zone :: "nat list"

text \<open>\<open>struct.unpack("<HHIIBB9H", inode_data)\<close>: the buffer must have exactly 32 bytes.\<close>

definition unpack_inode :: "byte list \<Rightarrow> exn + inode" where
  "unpack_inode d =
     (if length d \<noteq> 32 then Inl StructError
      else Inr \<lparr> i_mode = le_nat (take 2 d),
                 i_uid = le_nat (take 2 (drop 2 d)),
                 i_size = le_nat (take 4 (drop 4 d)),
                 i_time = le_nat (take 4 (drop 8 d)),
                 i_gid = le_nat (take 1 (drop 12 d)),
                 i_nlinks = le_nat (take 1 (drop 13 d)),
                 i_zone = map (\<lambda>k. le_nat (take 2 (drop (14 + 2 * k) d))) [0..<9] \<rparr>)"

text \<open>\<open>struct.pack("<HHIIBB9H", mode, uid, size, time, gid, nlinks, *zones)\<close>: raises
  unless there are nine zones and every value fits its field.\<close>

definition pack_inode :: "inode \<Rightarrow> exn + byte list" where
  "pack_inode ino =
     (if length (i_zone ino) = 9 \<and> fits 2 (i_mode ino) \<and> fits 2 (i_uid ino) \<and>
         fits 4 (i_size ino) \<and> fits 4 (i_time ino) \<and> fits 1 (i_gid ino) \<and>
         fits 1 (i_nlinks ino) \<and> list_all (fits 2) (i_zone ino)
      then Inr (nat_le 2 (i_mode ino) @ nat_le 2 (i_uid ino) @ nat_le 4 (i_size ino) @
                nat_le 4 (i_time ino) @ nat_le 1 (i_gid ino) @ nat_le 1 (i_nlinks ino) @
                concat (map (nat_le 2) (i_zone ino)))
      else Inl StructError)"

text \<open>The byte offset of inode \<open>inode_number\<close>, computed alike in \<open>parse_inode\<close>,
  \<open>create_new_file\<close>, \<open>create_new_directory\<close> and \<open>append_to_file\<close>. Python computes
  \<open>(inode_number - 1) * INODE_SIZE\<close> in unbounded integers; the table starts at byte 2048
  or later, so the offset is never negative, also for inode number 0.\<close>

definition inode_offset_of :: "sb_dict \<Rightarrow> nat \<Rightarrow> exn + nat" where
  "inode_offset_of sb inode_number =
     (case sb_get sb ''imap_blocks'' of Inl e \<Rightarrow> Inl e | Inr imap \<Rightarrow>
       (case sb_get sb ''zmap_blocks'' of Inl e \<Rightarrow> Inl e | Inr zmap \<Rightarrow>
         (let inode_table_start_block = BOOT_BLOCK + SUPER_BLOCK + imap + zmap;
              inode_table_start_byte = inode_table_start_block * BLOCK_SIZE
          in Inr (nat (int inode_table_start_byte + (int inode_number - 1) * int INODE_SIZE)))))"

definition parse_inode :: "image \<Rightarrow> sb_dict \<Rightarrow> nat \<Rightarrow> exn + inode" where
  "parse_inode f sb inode_number =
     (case inode_offset_of sb inode_number of Inl e \<Rightarrow> Inl e | Inr off \<Rightarrow>
        unpack_inode (file_read f off INODE_SIZE))"

text \<open>\<open>inode["i_zone"][k]\<close>\<close>

definition zone_at :: "inode \<Rightarrow> nat \<Rightarrow> exn + nat" where
  "zone_at ino k = (if k < length (i_zone ino) then Inr (i_zone ino ! k) else Inl IndexError)"

section \<open>Names\<close>

text \<open>
  A Python \<open>str\<close> (a name or the data given on the command line) is modelled by its
  UTF-8 bytes. \<open>bytes.decode()\<close> raises \<open>UnicodeDecodeError\<close> unless the bytes are
  well-formed UTF-8 (no overlong form, no surrogate, nothing above U+10FFFF), and on
  well-formed bytes two decoded strings are equal exactly when their bytes are.
  A command-line argument that is not well-formed UTF-8 reaches Python as a \<open>str\<close>
  with lone surrogates: it equals no decoded name, and \<open>str.encode()\<close> raises
  \<open>UnicodeEncodeError\<close> on it.
\<close>

definition utf8 :: "string \<Rightarrow> byte list" where
  "utf8 s = map (\<lambda>c. of_nat (of_char c)) s"

definition cont :: "byte \<Rightarrow> bool" where
  "cont b \<longleftrightarrow> 0x80 \<le> b \<and> b \<le> 0xBF"

fun utf8_valid :: "byte list \<Rightarrow> bool" where
  "utf8_valid [] = True"
| "utf8_valid (b # bs) =
     (if b < 0x80 then utf8_valid bs
      else if 0xC2 \<le> b \<and> b \<le> 0xDF then
        (case bs of b1 # r \<Rightarrow> cont b1 \<and> utf8_valid r | _ \<Rightarrow> False)
      else if 0xE0 \<le> b \<and> b \<le> 0xEF then
        (case bs of b1 # b2 # r \<Rightarrow>
           (if b = 0xE0 then 0xA0 \<le> b1 \<and> b1 \<le> 0xBF
            else if b = 0xED then 0x80 \<le> b1 \<and> b1 \<le> 0x9F
            else cont b1) \<and> cont b2 \<and> utf8_valid r
         | _ \<Rightarrow> False)
      else if 0xF0 \<le> b \<and> b \<le> 0xF4 then
        (case bs of b1 # b2 # b3 # r \<Rightarrow>
           (if b = 0xF0 then 0x90 \<le> b1 \<and> b1 \<le> 0xBF
            else if b = 0xF4 then 0x80 \<le> b1 \<and> b1 \<le> 0x8F
            else cont b1) \<and> cont b2 \<and> cont b3 \<and> utf8_valid r
         | _ \<Rightarrow> False)
      else False)"

definition decode :: "byte list \<Rightarrow> exn + byte list" where
  "decode bs = (if utf8_valid bs then Inr bs else Inl UnicodeDecodeError)"

definition encode :: "byte list \<Rightarrow> exn + byte list" where
  "encode s = (if utf8_valid s then Inr s else Inl UnicodeEncodeError)"

text \<open>
  \<open>len(s)\<close> of a \<open>str\<close> counts code points. Python decodes the command line as UTF-8
  with the error handler \<open>surrogateescape\<close>: a well-formed sequence of one to four
  bytes is one code point, and every byte that does not begin a well-formed sequence
  becomes one lone surrogate. \<open>lead_len\<close> is the length that the first byte announces
  and \<open>seq_len\<close> the number of bytes that make the first code point.
\<close>

definition lead_len :: "byte \<Rightarrow> nat" where
  "lead_len b =
     (if b < 0x80 then 1
      else if 0xC2 \<le> b \<and> b \<le> 0xDF then 2
      else if 0xE0 \<le> b \<and> b \<le> 0xEF then 3
      else if 0xF0 \<le> b \<and> b \<le> 0xF4 then 4
      else 1)"

definition seq_len :: "byte list \<Rightarrow> nat" where
  "seq_len s =
     (case s of [] \<Rightarrow> 0
      | b # _ \<Rightarrow>
          if lead_len b \<le> length s \<and> utf8_valid (take (lead_len b) s) then lead_len b else 1)"

function str_len :: "byte list \<Rightarrow> nat" where
  "str_len [] = 0"
| "str_len (b # bs) = Suc (str_len (drop (seq_len (b # bs) - 1) bs))"
  by pat_completeness auto
termination
  by (relation "measure length") auto

text \<open>\<open>s.ljust(width, '\0')\<close> on a \<open>str\<close> and \<open>b.ljust(width, b'\0')\<close> on bytes.\<close>

definition str_ljust :: "byte list \<Rightarrow> nat \<Rightarrow> byte list" where
  "str_ljust s width = s @ replicate (width - str_len s) 0"

definition bytes_ljust :: "byte list \<Rightarrow> nat \<Rightarrow> byte list" where
  "bytes_ljust b width = b @ replicate (width - length b) 0"

text \<open>\<open>b.rstrip(b'\0')\<close>\<close>

definition rstrip0 :: "byte list \<Rightarrow> byte list" where
  "rstrip0 b = rev (dropWhile (\<lambda>x. x = 0) (rev b))"

section \<open>Directory entries\<close>

text \<open>\<open>entry_format = f"<H{max_filename_length}s"\<close>;
  \<open>entry_size = struct.calcsize(entry_format)\<close>\<close>

definition entry_size :: "nat \<Rightarrow> nat" where
  "entry_size max_filename_length = 2 + max_filename_length"

text \<open>\<open>struct.unpack(entry_format, entry_data)\<close>: the buffer must have exactly
  \<open>entry_size\<close> bytes.\<close>

definition unpack_entry :: "nat \<Rightarrow> byte list \<Rightarrow> exn + nat \<times> byte list" where
  "unpack_entry max_filename_length entry_data =
     (if length entry_data \<noteq> entry_size max_filename_length then Inl StructError
      else Inr (le_nat (take 2 entry_data), drop 2 entry_data))"

text \<open>\<open>struct.pack(entry_format, inode_number, name)\<close>: the number must fit 16 bits; the
  \<open>s\<close> field cuts the name or pads it with zero bytes.\<close>

definition pack_entry :: "nat \<Rightarrow> nat \<Rightarrow> byte list \<Rightarrow> exn + byte list" where
  "pack_entry max_filename_length inode_number name =
     (if fits 2 inode_number
      then Inr (nat_le 2 inode_number @ take max_filename_length name @
                replicate (max_filename_length - length name) 0)
      else Inl StructError)"

text \<open>\<open>range(0, BLOCK_SIZE, entry_size)\<close>\<close>

definition entry_offsets :: "nat \<Rightarrow> nat list" where
  "entry_offsets max_filename_length =
     map (\<lambda>i. i * entry_size max_filename_length)
       [0 ..< (BLOCK_SIZE + entry_size max_filename_length - 1) div entry_size max_filename_length]"

text \<open>\<open>block_data[offset:offset + entry_size]\<close>\<close>

definition entry_slice :: "nat \<Rightarrow> byte list \<Rightarrow> nat \<Rightarrow> byte list" where
  "entry_slice max_filename_length block_data offset =
     take (entry_size max_filename_length) (drop offset block_data)"

section \<open>Listing the root directory\<close>

text \<open>The inner loop of \<open>read_root_directory_entries\<close> over the offsets of one block;
  \<open>entries\<close> is the list built so far.\<close>

fun list_block :: "nat \<Rightarrow> byte list \<Rightarrow> nat list \<Rightarrow> byte list list \<Rightarrow> exn + byte list list" where
  "list_block max_filename_length block_data [] entries = Inr entries"
| "list_block max_filename_length block_data (offset # offsets) entries =
     (case unpack_entry max_filename_length
             (entry_slice max_filename_length block_data offset) of
        Inl e \<Rightarrow> Inl e
      | Inr (inode_number, filename) \<Rightarrow>
          list_block max_filename_length block_data offsets
            (if inode_number \<noteq> 0 then entries @ [rstrip0 filename] else entries))"

text \<open>The outer loop, over the zone slots of the inode.\<close>

fun list_zones :: "image \<Rightarrow> nat \<Rightarrow> nat list \<Rightarrow> byte list list \<Rightarrow> exn + byte list list" where
  "list_zones f max_filename_length [] entries = Inr entries"
| "list_zones f max_filename_length (zone_number # zones) entries =
     (if zone_number \<noteq> EMPTY then
        (case list_block max_filename_length (file_read f (zone_number * BLOCK_SIZE) BLOCK_SIZE)
                (entry_offsets max_filename_length) entries of
           Inl e \<Rightarrow> Inl e
         | Inr entries' \<Rightarrow> list_zones f max_filename_length zones entries')
      else list_zones f max_filename_length zones entries)"

definition read_root_directory_entries :: "image \<Rightarrow> sb_dict \<Rightarrow> nat \<Rightarrow> exn + byte list list" where
  "read_root_directory_entries f sb max_filename_length =
     (case parse_inode f sb 1 of Inl e \<Rightarrow> Inl e
      | Inr root_inode \<Rightarrow> list_zones f max_filename_length (i_zone root_inode) [])"

text \<open>\<open>print_root_directory\<close> writes the entries to \<open>sys.stdout\<close>, one per line.\<close>

definition print_root_directory :: "image \<Rightarrow> sb_dict \<Rightarrow> nat \<Rightarrow> byte list list outcome" where
  "print_root_directory f sb max_filename_length =
     (case read_root_directory_entries f sb max_filename_length of
        Inl e \<Rightarrow> Raised e | Inr entries \<Rightarrow> Returned entries)"

section \<open>Looking a name up in a directory\<close>

text \<open>
  \<open>find_inode_of_directory\<close>, \<open>cat_file\<close> and \<open>append_to_file\<close> scan a directory with the
  same two loops and the same test
  \<open>entry_name.rstrip(b'\0').decode() == name\<close>; at the first entry that passes it
  the first returns its inode number and the other two run their body on it and return.
  \<open>find_in_block\<close> is the inner loop and \<open>find_in_zones\<close> the outer one: \<open>Some\<close> of the
  inode number of the first entry that passes the test, \<open>None\<close> when both loops end.
\<close>

fun find_in_block :: "nat \<Rightarrow> byte list \<Rightarrow> byte list \<Rightarrow> nat list \<Rightarrow> exn + nat option" where
  "find_in_block max_filename_length block_data name [] = Inr None"
| "find_in_block max_filename_length block_data name (offset # offsets) =
     (case unpack_entry max_filename_length
             (entry_slice max_filename_length block_data offset) of
        Inl e \<Rightarrow> Inl e
      | Inr (inode_number, entry_name) \<Rightarrow>
          (case decode (rstrip0 entry_name) of
             Inl e \<Rightarrow> Inl e
           | Inr s \<Rightarrow>
               if s = name then Inr (Some inode_number)
               else find_in_block max_filename_length block_data name offsets))"

fun find_in_zones :: "image \<Rightarrow> nat \<Rightarrow> byte list \<Rightarrow> nat list \<Rightarrow> exn + nat option" where
  "find_in_zones f max_filename_length name [] = Inr None"
| "find_in_zones f max_filename_length name (zone # zones) =
     (if zone \<noteq> EMPTY then
        (case find_in_block max_filename_length (file_read f (zone * BLOCK_SIZE) BLOCK_SIZE)
                name (entry_offsets max_filename_length) of
           Inl e \<Rightarrow> Inl e
         | Inr (Some inode_number) \<Rightarrow> Inr (Some inode_number)
         | Inr None \<Rightarrow> find_in_zones f max_filename_length name zones)
      else find_in_zones f max_filename_length name zones)"

definition find_inode_of_directory :: "image \<Rightarrow> sb_dict \<Rightarrow> byte list \<Rightarrow> nat \<Rightarrow> nat \<Rightarrow> exn + nat option" where
  "find_inode_of_directory f sb dir_name max_filename_length root_inode_number =
     (case parse_inode f sb root_inode_number of Inl e \<Rightarrow> Inl e
      | Inr root_inode \<Rightarrow> find_in_zones f max_filename_length dir_name (i_zone root_inode))"

section \<open>Reading a file\<close>

text \<open>\<open>struct.unpack_from\<close> raises when the block read has fewer than 1024 bytes.\<close>

definition fetch_indirect_block_addresses :: "image \<Rightarrow> nat \<Rightarrow> exn + nat list" where
  "fetch_indirect_block_addresses f block_num =
     (let block_data = file_read f (block_num * BLOCK_SIZE) BLOCK_SIZE in
      if length block_data < BLOCK_SIZE then Inl StructError
      else Inr (filter (\<lambda>address. address \<noteq> EMPTY)
                  (map (\<lambda>k. le_nat (take 2 (drop (2 * k) block_data))) [0 ..< BLOCK_SIZE div 2])))"

text \<open>The loop of \<open>fetch_double_indirect_block_addresses\<close>.\<close>

fun fetch_each :: "image \<Rightarrow> nat list \<Rightarrow> nat list \<Rightarrow> exn + nat list" where
  "fetch_each f [] data_block_addresses = Inr data_block_addresses"
| "fetch_each f (indirect_address # indirect_addresses) data_block_addresses =
     (case fetch_indirect_block_addresses f indirect_address of
        Inl e \<Rightarrow> Inl e
      | Inr addresses \<Rightarrow> fetch_each f indirect_addresses (data_block_addresses @ addresses))"

definition fetch_double_indirect_block_addresses :: "image \<Rightarrow> nat \<Rightarrow> exn + nat list" where
  "fetch_double_indirect_block_addresses f block_num =
     (case fetch_indirect_block_addresses f block_num of
        Inl e \<Rightarrow> Inl e
      | Inr indirect_addresses \<Rightarrow> fetch_each f indirect_addresses [])"

text \<open>The first loop of \<open>read_file_data\<close>, over the direct zones; the state is
  \<open>(file_content, remaining_size)\<close>.\<close>

fun read_direct :: "image \<Rightarrow> nat list \<Rightarrow> byte list \<Rightarrow> nat \<Rightarrow> byte list \<times> nat" where
  "read_direct f [] file_content remaining_size = (file_content, remaining_size)"
| "read_direct f (zone # zones) file_content remaining_size =
     (if zone \<noteq> EMPTY \<and> remaining_size > 0 then
        (let bytes_to_read = min BLOCK_SIZE remaining_size in
         read_direct f zones (file_content @ file_read f (zone * BLOCK_SIZE) bytes_to_read)
           (remaining_size - bytes_to_read))
      else read_direct f zones file_content remaining_size)"

text \<open>The loops over the blocks of the indirect and of the double indirect zone, which
  leave at \<open>remaining_size <= 0\<close>.\<close>

fun read_blocks :: "image \<Rightarrow> nat list \<Rightarrow> byte list \<Rightarrow> nat \<Rightarrow> byte list \<times> nat" where
  "read_blocks f [] file_content remaining_size = (file_content, remaining_size)"
| "read_blocks f (block # blocks) file_content remaining_size =
     (if remaining_size \<le> 0 then (file_content, remaining_size)
      else
        (let bytes_to_read = min BLOCK_SIZE remaining_size in
         read_blocks f blocks (file_content @ file_read f (block * BLOCK_SIZE) bytes_to_read)
           (remaining_size - bytes_to_read)))"

text \<open>The second and the third part of \<open>read_file_data\<close>: \<open>k\<close> is the index of the zone
  slot and \<open>fetch\<close> the function that expands it.\<close>

definition read_through :: "image \<Rightarrow> inode \<Rightarrow> nat \<Rightarrow> (image \<Rightarrow> nat \<Rightarrow> exn + nat list)
    \<Rightarrow> byte list \<times> nat \<Rightarrow> exn + byte list \<times> nat" where
  "read_through f ino k fetch st =
     (case st of (file_content, remaining_size) \<Rightarrow>
        if remaining_size > 0 then
          (case zone_at ino k of Inl e \<Rightarrow> Inl e
           | Inr z \<Rightarrow>
               if z \<noteq> EMPTY then
                 (case fetch f z of Inl e \<Rightarrow> Inl e
                  | Inr blocks \<Rightarrow> Inr (read_blocks f blocks file_content remaining_size))
               else Inr st)
        else Inr st)"

definition read_file_data :: "image \<Rightarrow> inode \<Rightarrow> exn + byte list" where
  "read_file_data f ino =
     (case read_through f ino INDIRECT_ZONE_INDEX fetch_indirect_block_addresses
             (read_direct f (take NUM_DIRECT_ZONES (i_zone ino)) [] (i_size ino)) of
        Inl e \<Rightarrow> Inl e
      | Inr st \<Rightarrow>
          (case read_through f ino DOUBLE_INDIRECT_ZONE_INDEX
                  fetch_double_indirect_block_addresses st of
             Inl e \<Rightarrow> Inl e
           | Inr (file_content, remaining_size) \<Rightarrow> Inr file_content))"

text \<open>\<open>cat_file\<close>: the content of the first entry that passes the test goes to
  \<open>sys.stdout\<close>.\<close>

definition cat_file :: "image \<Rightarrow> sb_dict \<Rightarrow> nat \<Rightarrow> byte list \<Rightarrow> nat \<Rightarrow> byte list outcome" where
  "cat_file f sb dir_inode_number filename max_filename_length =
     (case parse_inode f sb dir_inode_number of Inl e \<Rightarrow> Raised e
      | Inr dir_inode \<Rightarrow>
          (case find_in_zones f max_filename_length filename (i_zone dir_inode) of
             Inl e \<Rightarrow> Raised e
           | Inr None \<Rightarrow> Printed FileNotFound
           | Inr (Some inode_number) \<Rightarrow>
               (case parse_inode f sb inode_number of Inl e \<Rightarrow> Raised e
                | Inr file_inode \<Rightarrow>
                    (case read_file_data f file_inode of Inl e \<Rightarrow> Raised e
                     | Inr file_content \<Rightarrow> Returned file_content))))"

section \<open>Creating a file\<close>

text \<open>The search for a free inode, the first loop of \<open>create_new_file\<close> and of
  \<open>create_new_directory\<close>, over \<open>range(1, sb_dict["num_inodes"] + 1)\<close>: \<open>Some\<close> of the
  number at the \<open>break\<close>, \<open>None\<close> when the loop ends.\<close>

fun find_free_inode :: "image \<Rightarrow> sb_dict \<Rightarrow> nat list \<Rightarrow> exn + nat option" where
  "find_free_inode f sb [] = Inr None"
| "find_free_inode f sb (inode_number # inode_numbers) =
     (case parse_inode f sb inode_number of
        Inl e \<Rightarrow> Inl e
      | Inr ino \<Rightarrow>
          if i_nlinks ino = 0 then Inr (Some inode_number)
          else find_free_inode f sb inode_numbers)"

text \<open>The search for a free directory entry in one block, the second loop of both
  functions: \<open>Some\<close> of the offset at the \<open>break\<close>, \<open>None\<close> when the loop ends.\<close>

fun find_free_entry :: "nat \<Rightarrow> byte list \<Rightarrow> nat list \<Rightarrow> exn + nat option" where
  "find_free_entry max_filename_length block_data [] = Inr None"
| "find_free_entry max_filename_length block_data (offset # offsets) =
     (case unpack_entry max_filename_length
             (entry_slice max_filename_length block_data offset) of
        Inl e \<Rightarrow> Inl e
      | Inr (inode_num, name) \<Rightarrow>
          if inode_num = 0 then Inr (Some offset)
          else find_free_entry max_filename_length block_data offsets)"

text \<open>The inode records that the two functions write; \<open>now\<close> is \<open>int(time.time())\<close>.\<close>

definition new_file_inode :: "nat \<Rightarrow> inode" where
  "new_file_inode now =
     \<lparr> i_mode = S_IFREG OR S_IRUSR OR S_IWUSR OR S_IXUSR, i_uid = 0, i_size = 0, i_time = now,
       i_gid = 0, i_nlinks = 1, i_zone = replicate 9 EMPTY \<rparr>"

definition new_dir_inode :: "nat \<Rightarrow> inode" where
  "new_dir_inode now =
     \<lparr> i_mode = S_IFDIR OR S_IRUSR OR S_IWUSR OR S_IXUSR, i_uid = 0, i_size = BLOCK_SIZE,
       i_time = now, i_gid = 0, i_nlinks = 2, i_zone = replicate 9 EMPTY \<rparr>"

text \<open>Lines 261 to 280 of \<open>create_new_file\<close>, the same as lines 316 to 334 of
  \<open>create_new_directory\<close>: the entry for the new inode goes into the first free entry of
  the block \<open>root_inode["i_zone"][0]\<close>. The result has the offset of the inode record
  for the caller.\<close>

definition add_root_entry :: "image \<Rightarrow> inode \<Rightarrow> nat \<Rightarrow> byte list \<Rightarrow> nat \<Rightarrow> image \<times> unit outcome" where
  "add_root_entry f root_inode inode_number filename max_filename_length =
     (case zone_at root_inode 0 of Inl e \<Rightarrow> (f, Raised e)
      | Inr root_dir_block \<Rightarrow>
          (case find_free_entry max_filename_length
                  (file_read f (root_dir_block * BLOCK_SIZE) BLOCK_SIZE)
                  (entry_offsets max_filename_length) of
             Inl e \<Rightarrow> (f, Raised e)
           | Inr None \<Rightarrow> (f, Printed NoFreeDirectoryEntry)
           | Inr (Some offset) \<Rightarrow>
               (case encode (str_ljust filename max_filename_length) of
                  Inl e \<Rightarrow> (f, Raised e)
                | Inr name \<Rightarrow>
                    (case pack_entry max_filename_length inode_number name of
                       Inl e \<Rightarrow> (f, Raised e)
                     | Inr new_dir_entry \<Rightarrow>
                         (file_write f (root_dir_block * BLOCK_SIZE + offset) new_dir_entry,
                          Returned ())))))"

definition create_new_file :: "image \<Rightarrow> sb_dict \<Rightarrow> byte list \<Rightarrow> nat \<Rightarrow> nat \<Rightarrow> image \<times> unit outcome" where
  "create_new_file f sb filename max_filename_length now =
     (case parse_inode f sb 1 of Inl e \<Rightarrow> (f, Raised e)
      | Inr root_inode \<Rightarrow>
      (case sb_get sb ''num_inodes'' of Inl e \<Rightarrow> (f, Raised e)
      | Inr num_inodes \<Rightarrow>
      (case find_free_inode f sb [1 ..< num_inodes + 1] of Inl e \<Rightarrow> (f, Raised e)
      | Inr None \<Rightarrow> (f, Printed NoFreeInodes)
      | Inr (Some inode_number) \<Rightarrow>
      (case inode_offset_of sb inode_number of Inl e \<Rightarrow> (f, Raised e)
      | Inr inode_offset \<Rightarrow>
      (case pack_inode (new_file_inode now) of Inl e \<Rightarrow> (f, Raised e)
      | Inr new_inode \<Rightarrow>
          add_root_entry (file_write f inode_offset new_inode) root_inode inode_number
            filename max_filename_length)))))"

section \<open>Creating a directory\<close>

text \<open>The search for a free data block, the third loop of \<open>create_new_directory\<close>.\<close>

fun find_free_block :: "image \<Rightarrow> nat list \<Rightarrow> nat option" where
  "find_free_block f [] = None"
| "find_free_block f (zone_number # zone_numbers) =
     (if file_read f (zone_number * BLOCK_SIZE) BLOCK_SIZE = replicate BLOCK_SIZE (of_nat EMPTY)
      then Some zone_number
      else find_free_block f zone_numbers)"

text \<open>Lines 336 to 354 of \<open>create_new_directory\<close>. The upper end of the range is read
  with the key \<open>"nzones"\<close>; the zone number is written 16 bytes into the inode record.\<close>

definition add_dir_block :: "image \<Rightarrow> sb_dict \<Rightarrow> nat \<Rightarrow> nat \<Rightarrow> nat \<Rightarrow> image \<times> unit outcome" where
  "add_dir_block f sb inode_offset free_inode_number max_filename_length =
     (case sb_get sb ''first_data_zone'' of Inl e \<Rightarrow> (f, Raised e)
      | Inr first_data_zone \<Rightarrow>
      (case sb_get sb ''nzones'' of Inl e \<Rightarrow> (f, Raised e)
      | Inr nzones \<Rightarrow>
      (case find_free_block f [first_data_zone ..< nzones] of
        None \<Rightarrow> (f, Printed NoFreeDataBlocks)
      | Some new_dir_block \<Rightarrow>
      (if \<not> fits 2 new_dir_block then (f, Raised StructError)
       else
         (let f1 = file_write f (inode_offset + 16) (nat_le 2 new_dir_block) in
          (case pack_entry max_filename_length free_inode_number
                  (bytes_ljust (utf8 ''.'') max_filename_length) of
             Inl e \<Rightarrow> (f1, Raised e)
           | Inr dot \<Rightarrow>
          (case pack_entry max_filename_length 1
                  (bytes_ljust (utf8 ''..'') max_filename_length) of
             Inl e \<Rightarrow> (f1, Raised e)
           | Inr dotdot \<Rightarrow>
               (file_write f1 (new_dir_block * BLOCK_SIZE) (dot @ dotdot), Returned ()))))))))"

definition create_new_directory :: "image \<Rightarrow> sb_dict \<Rightarrow> byte list \<Rightarrow> nat \<Rightarrow> nat \<Rightarrow> image \<times> unit outcome" where
  "create_new_directory f sb dirname max_filename_length now =
     (case parse_inode f sb 1 of Inl e \<Rightarrow> (f, Raised e)
      | Inr root_inode \<Rightarrow>
      (case sb_get sb ''num_inodes'' of Inl e \<Rightarrow> (f, Raised e)
      | Inr num_inodes \<Rightarrow>
      (case find_free_inode f sb [1 ..< num_inodes + 1] of Inl e \<Rightarrow> (f, Raised e)
      | Inr None \<Rightarrow> (f, Printed NoFreeInodes)
      | Inr (Some free_inode_number) \<Rightarrow>
      (case inode_offset_of sb free_inode_number of Inl e \<Rightarrow> (f, Raised e)
      | Inr inode_offset \<Rightarrow>
      (case pack_inode (new_dir_inode now) of Inl e \<Rightarrow> (f, Raised e)
      | Inr new_inode \<Rightarrow>
      (case add_root_entry (file_write f inode_offset new_inode) root_inode free_inode_number
              dirname max_filename_length of
         (f2, Returned u) \<Rightarrow>
           add_dir_block f2 sb inode_offset free_inode_number max_filename_length
       | (f2, r) \<Rightarrow> (f2, r)))))))"

section \<open>Appending to a file\<close>

text \<open>
  \<open>append_to_file\<close> calls \<open>read_file_data(file, sb_dict, file_inode)\<close>, with three
  arguments, and \<open>read_file_data(file, inode)\<close> takes two: Python evaluates the
  arguments and raises \<open>TypeError\<close> at the call.
\<close>

definition read_file_data_3 :: "image \<Rightarrow> sb_dict \<Rightarrow> inode \<Rightarrow> exn + byte list" where
  "read_file_data_3 f sb file_inode = Inl TypeError"

text \<open>The loop over the direct zones; the state is the image and \<open>file_content\<close>.\<close>

fun write_direct :: "image \<Rightarrow> nat list \<Rightarrow> byte list \<Rightarrow> image \<times> byte list" where
  "write_direct f [] file_content = (f, file_content)"
| "write_direct f (zone # zones) file_content =
     (if zone \<noteq> EMPTY then
        write_direct (file_write f (zone * BLOCK_SIZE) (take BLOCK_SIZE file_content)) zones
          (drop BLOCK_SIZE file_content)
      else write_direct f zones file_content)"

text \<open>The loops over the blocks of the indirect and of the double indirect zone.\<close>

fun write_blocks :: "image \<Rightarrow> nat list \<Rightarrow> byte list \<Rightarrow> image \<times> byte list" where
  "write_blocks f [] file_content = (f, file_content)"
| "write_blocks f (block # blocks) file_content =
     (if length file_content \<le> 0 then (f, file_content)
      else write_blocks (file_write f (block * BLOCK_SIZE) (take BLOCK_SIZE file_content)) blocks
             (drop BLOCK_SIZE file_content))"

definition write_through :: "inode \<Rightarrow> nat \<Rightarrow> (image \<Rightarrow> nat \<Rightarrow> exn + nat list)
    \<Rightarrow> image \<times> byte list \<Rightarrow> exn + image \<times> byte list" where
  "write_through ino k fetch st =
     (case st of (f, file_content) \<Rightarrow>
        if length file_content > 0 then
          (case zone_at ino k of Inl e \<Rightarrow> Inl e
           | Inr z \<Rightarrow>
               if z \<noteq> EMPTY then
                 (case fetch f z of Inl e \<Rightarrow> Inl e
                  | Inr blocks \<Rightarrow> Inr (write_blocks f blocks file_content))
               else Inr st)
        else Inr st)"

text \<open>The body that \<open>append_to_file\<close> runs on the first entry that passes the test
  (lines 373 to 422).\<close>

definition append_body :: "image \<Rightarrow> sb_dict \<Rightarrow> nat \<Rightarrow> byte list \<Rightarrow> nat \<Rightarrow> image \<times> unit outcome" where
  "append_body f sb inode_number data now =
     (case parse_inode f sb inode_number of Inl e \<Rightarrow> (f, Raised e)
      | Inr file_inode \<Rightarrow>
      (let current_size = i_size file_inode;
           new_size = current_size + str_len data in
      (case read_file_data_3 f sb file_inode of Inl e \<Rightarrow> (f, Raised e)
      | Inr file_content \<Rightarrow>
      (case encode data of Inl e \<Rightarrow> (f, Raised e)
      | Inr encoded \<Rightarrow>
      (case write_direct f (take NUM_DIRECT_ZONES (i_zone file_inode))
              (file_content @ encoded) of st1 \<Rightarrow>
      (case write_through file_inode INDIRECT_ZONE_INDEX fetch_indirect_block_addresses st1 of
         Inl e \<Rightarrow> (fst st1, Raised e)
       | Inr st2 \<Rightarrow>
      (case write_through file_inode DOUBLE_INDIRECT_ZONE_INDEX
              fetch_double_indirect_block_addresses st2 of
         Inl e \<Rightarrow> (fst st2, Raised e)
       | Inr st3 \<Rightarrow>
      (case inode_offset_of sb inode_number of Inl e \<Rightarrow> (fst st3, Raised e)
       | Inr inode_offset \<Rightarrow>
      (case pack_inode (file_inode\<lparr> i_size := new_size, i_time := now \<rparr>) of
         Inl e \<Rightarrow> (fst st3, Raised e)
       | Inr new_inode \<Rightarrow> (file_write (fst st3) inode_offset new_inode, Returned ()))))))))))"

definition append_to_file :: "image \<Rightarrow> sb_dict \<Rightarrow> nat \<Rightarrow> byte list \<Rightarrow> byte list \<Rightarrow> nat \<Rightarrow> nat
    \<Rightarrow> image \<times> unit outcome" where
  "append_to_file f sb dir_inode_number filename data max_filename_length now =
     (case parse_inode f sb dir_inode_number of Inl e \<Rightarrow> (f, Raised e)
      | Inr dir_inode \<Rightarrow>
          (case find_in_zones f max_filename_length filename (i_zone dir_inode) of
             Inl e \<Rightarrow> (f, Raised e)
           | Inr None \<Rightarrow> (f, Printed FileNotFound)
           | Inr (Some inode_number) \<Rightarrow> append_body f sb inode_number data now))"

section \<open>The commands\<close>

text \<open>
  The main program reads the superblock from block 1 and dispatches on the command.
  The functions below are its branches after the checks of \<open>sys.argv\<close>: \<open>dir_name\<close> and
  \<open>file_name\<close> are the two parts of \<open>path/to/file\<close>. No branch catches an exception.
\<close>

definition read_superblock :: "image \<Rightarrow> exn + sb_dict" where
  "read_superblock f = parse_superblock (file_read f BLOCK_SIZE BLOCK_SIZE)"

text \<open>\<open>MAX_FILENAME_LONG if sb_dict["magic"] == 0x138F else MAX_FILENAME_SHORT\<close>\<close>

definition max_filename_length_of :: "sb_dict \<Rightarrow> exn + nat" where
  "max_filename_length_of sb =
     (case sb_get sb ''magic'' of Inl e \<Rightarrow> Inl e
      | Inr magic \<Rightarrow> Inr (if magic = 0x138F then MAX_FILENAME_LONG else MAX_FILENAME_SHORT))"

definition main_ls :: "image \<Rightarrow> byte list list outcome" where
  "main_ls f =
     (case read_superblock f of Inl e \<Rightarrow> Raised e
      | Inr sb_dict \<Rightarrow>
          (case max_filename_length_of sb_dict of Inl e \<Rightarrow> Raised e
           | Inr max_filename_length \<Rightarrow> print_root_directory f sb_dict max_filename_length))"

definition main_cat :: "image \<Rightarrow> byte list \<Rightarrow> byte list \<Rightarrow> byte list outcome" where
  "main_cat f dir_name file_name =
     (case read_superblock f of Inl e \<Rightarrow> Raised e
      | Inr sb_dict \<Rightarrow>
      (case max_filename_length_of sb_dict of Inl e \<Rightarrow> Raised e
      | Inr max_filename_length \<Rightarrow>
      (case find_inode_of_directory f sb_dict dir_name max_filename_length 1 of
         Inl e \<Rightarrow> Raised e
       | Inr None \<Rightarrow> Exited DirectoryNotFound
       | Inr (Some dir_inode_number) \<Rightarrow>
           cat_file f sb_dict dir_inode_number file_name max_filename_length)))"


definition main_mkdir :: "image \<Rightarrow> byte list \<Rightarrow> nat \<Rightarrow> image \<times> unit outcome" where
  "main_mkdir f dirname now =
     (case read_superblock f of Inl e \<Rightarrow> (f, Raised e)
      | Inr sb_dict \<Rightarrow>
      (case max_filename_length_of sb_dict of Inl e \<Rightarrow> (f, Raised e)
      | Inr max_filename_length \<Rightarrow>
          if str_len dirname > max_filename_length then (f, Exited NameTooLong)
          else create_new_directory f sb_dict dirname max_filename_length now))"

definition main_append :: "image \<Rightarrow> byte list \<Rightarrow> byte list \<Rightarrow> byte list \<Rightarrow> nat \<Rightarrow> image \<times> unit outcome" where
  "main_append f dir_name file_name data_to_append now =
     (case read_superblock f of Inl e \<Rightarrow> (f, Raised e)
      | Inr sb_dict \<Rightarrow>
      (case max_filename_length_of sb_dict of Inl e \<Rightarrow> (f, Raised e)
      | Inr max_filename_length \<Rightarrow>
      (case find_inode_of_directory f sb_dict dir_name max_filename_length 1 of
         Inl e \<Rightarrow> (f, Raised e)
       | Inr None \<Rightarrow> (f, Exited DirectoryNotFound)
       | Inr (Some dir_inode_number) \<Rightarrow>
           append_to_file f sb_dict dir_inode_number file_name data_to_append
             max_filename_length now)))"

section \<open>The zones of a file, in the words of the specification\<close>

text \<open>The non-zero entries of the block \<open>z\<close> read as 512 zone numbers of 16 bits.\<close>

definition indirect_entries :: "image \<Rightarrow> nat \<Rightarrow> nat list" where
  "indirect_entries f z =
     filter (\<lambda>a. a \<noteq> 0)
       (map (\<lambda>k. le_nat (take 2 (drop (2 * k) (file_read f (z * 1024) 1024)))) [0 ..< 512])"

text \<open>The zone resolver: the non-zero direct slots, then the entries of the indirect
  block, then the entries of every indirect block named by the double indirect block.\<close>

definition resolved_zones :: "image \<Rightarrow> inode \<Rightarrow> nat list" where
  "resolved_zones f ino =
     filter (\<lambda>z. z \<noteq> 0) (take 7 (i_zone ino)) @
     (if i_zone ino ! 7 \<noteq> 0 then indirect_entries f (i_zone ino ! 7) else []) @
     (if i_zone ino ! 8 \<noteq> 0
      then concat (map (indirect_entries f) (indirect_entries f (i_zone ino ! 8))) else [])"

text \<open>The content reader: \<open>min(1024, remaining)\<close> bytes of every resolved block, until
  nothing remains or the zones end.\<close>

fun gather :: "image \<Rightarrow> nat list \<Rightarrow> nat \<Rightarrow> byte list" where
  "gather f [] remaining = []"
| "gather f (z # zs) remaining =
     (if remaining = 0 then []
      else file_read f (z * 1024) (min 1024 remaining) @
           gather f zs (remaining - min 1024 remaining))"

text \<open>The block \<open>z\<close> lies inside the image, and so do the indirect blocks of an inode.\<close>

definition block_present :: "image \<Rightarrow> nat \<Rightarrow> bool" where
  "block_present f z \<longleftrightarrow> (z + 1) * 1024 \<le> length f"

definition indirect_blocks_present :: "image \<Rightarrow> inode \<Rightarrow> bool" where
  "indirect_blocks_present f ino \<longleftrightarrow>
     (i_zone ino ! 7 \<noteq> 0 \<longrightarrow> block_present f (i_zone ino ! 7)) \<and>
     (i_zone ino ! 8 \<noteq> 0 \<longrightarrow> block_present f (i_zone ino ! 8) \<and>
        (\<forall>a \<in> set (indirect_entries f (i_zone ino ! 8)). block_present f a))"

section \<open>Directories, in the words of the specification\<close>

text \<open>Every entry slice of the block has the full entry size (so for a block of 1024
  bytes and a name width of 14 or 30).\<close>

definition whole_block :: "nat \<Rightarrow> byte list \<Rightarrow> bool" where
  "whole_block max_filename_length block_data \<longleftrightarrow>
     (\<forall>offset \<in> set (entry_offsets max_filename_length).
        length (entry_slice max_filename_length block_data offset) =
          entry_size max_filename_length)"

text \<open>The inode number and the zero-trimmed name of the entry at an offset.\<close>

definition entry_ino :: "nat \<Rightarrow> byte list \<Rightarrow> nat \<Rightarrow> nat" where
  "entry_ino max_filename_length block_data offset =
     le_nat (take 2 (entry_slice max_filename_length block_data offset))"

definition entry_name :: "nat \<Rightarrow> byte list \<Rightarrow> nat \<Rightarrow> byte list" where
  "entry_name max_filename_length block_data offset =
     rstrip0 (drop 2 (entry_slice max_filename_length block_data offset))"

definition entries_at :: "nat \<Rightarrow> byte list \<Rightarrow> nat list \<Rightarrow> (nat \<times> byte list) list" where
  "entries_at max_filename_length block_data offsets =
     map (\<lambda>offset. (entry_ino max_filename_length block_data offset,
                      entry_name max_filename_length block_data offset)) offsets"

definition block_entries :: "nat \<Rightarrow> byte list \<Rightarrow> (nat \<times> byte list) list" where
  "block_entries max_filename_length block_data =
     entries_at max_filename_length block_data (entry_offsets max_filename_length)"

text \<open>The blocks of a directory as the scans take them: one block of 1024 bytes for
  every non-zero value among the zone slots of the inode, read at that block number.\<close>

definition dir_blocks :: "image \<Rightarrow> nat list \<Rightarrow> byte list list" where
  "dir_blocks f zones =
     map (\<lambda>z. file_read f (z * BLOCK_SIZE) BLOCK_SIZE) (filter (\<lambda>z. z \<noteq> EMPTY) zones)"

definition dir_entries :: "image \<Rightarrow> nat \<Rightarrow> nat list \<Rightarrow> (nat \<times> byte list) list" where
  "dir_entries f max_filename_length zones =
     concat (map (block_entries max_filename_length) (dir_blocks f zones))"

section \<open>Example images\<close>

text \<open>
  The example images have no bitmap blocks: block 0 is the boot block, block 1 the
  superblock, block 2 the inode table and block 3 the first data zone. The magic number
  is 0x137F (names of 14 bytes).
\<close>

definition sb_bytes :: "byte \<Rightarrow> byte \<Rightarrow> byte list" where
  "sb_bytes num_inodes num_zones =
     [num_inodes, 0,  num_zones, 0,  0, 0,  0, 0,  3, 0,  0, 0,  0, 0x1C, 0x08, 0x10,
      0x7F, 0x13,  1, 0]"

definition sb_example :: "nat \<Rightarrow> nat \<Rightarrow> sb_dict" where
  "sb_example num_inodes num_zones =
     [''num_inodes'' \<mapsto> num_inodes, ''num_zones'' \<mapsto> num_zones, ''imap_blocks'' \<mapsto> 0,
      ''zmap_blocks'' \<mapsto> 0, ''first_data_zone'' \<mapsto> 3, ''log_zone_size'' \<mapsto> 0,
      ''max_file_size'' \<mapsto> 0x10081C00, ''magic'' \<mapsto> 0x137F, ''state'' \<mapsto> 1]"

text \<open>A directory inode record with two links and the given first, second and eighth
  zone slot; a directory entry.\<close>

definition dir_inode_bytes :: "byte \<Rightarrow> byte \<Rightarrow> byte \<Rightarrow> byte list" where
  "dir_inode_bytes z0 z1 z7 =
     [0xED, 0x41,  0, 0,  0x40, 0, 0, 0,  0, 0, 0, 0,  0,  2,
      z0, 0,  z1, 0,  0, 0,  0, 0,  0, 0,  0, 0,  0, 0,  z7, 0,  0, 0]"

definition entry_bytes :: "byte \<Rightarrow> string \<Rightarrow> byte list" where
  "entry_bytes inode_number name =
     [inode_number, 0] @ utf8 name @ replicate (14 - length name) 0"

text \<open>Scenario A: the root directory has one direct zone, with the entry
  \<open>("foo", 5)\<close> and empty slots behind it.\<close>

definition image_A :: image where
  "image_A =
     replicate 1024 0 @
     sb_bytes 32 4 @ replicate 1004 0 @
     dir_inode_bytes 3 0 0 @ replicate 992 0 @
     entry_bytes 5 ''foo'' @ replicate 1008 0"

text \<open>The zone slot with index 7, the one for the indirect block, of the root inode is
  not zero: block 3 has the entry \<open>("foo", 5)\<close> and block 4 the entry \<open>("bar", 6)\<close>.\<close>

definition image_B :: image where
  "image_B =
     replicate 1024 0 @
     sb_bytes 32 5 @ replicate 1004 0 @
     dir_inode_bytes 3 0 4 @ replicate 992 0 @
     entry_bytes 5 ''foo'' @ replicate 1008 0 @
     entry_bytes 6 ''bar'' @ replicate 1008 0"

text \<open>The root directory has an entry with inode number 0 that still has the name
  \<open>foo\<close>, as a removed entry has, and behind it the entry \<open>("foo", 5)\<close>.\<close>

definition image_D :: image where
  "image_D =
     replicate 1024 0 @
     sb_bytes 32 4 @ replicate 1004 0 @
     dir_inode_bytes 3 0 0 @ replicate 992 0 @
     entry_bytes 0 ''foo'' @ entry_bytes 5 ''foo'' @ replicate 992 0"

text \<open>The root directory has two zones: block 3 is full (every entry has the inode
  number 0x0101) and block 4 has only free entries. Inode 1 is in use and the inodes
  from 2 on are free.\<close>

definition image_E :: image where
  "image_E =
     replicate 1024 0 @
     sb_bytes 32 5 @ replicate 1004 0 @
     dir_inode_bytes 3 4 0 @ replicate 992 0 @
     replicate 1024 1 @
     replicate 1024 0"

text \<open>An image with two inodes, both in use.\<close>

definition image_F :: image where
  "image_F =
     replicate 1024 0 @
     sb_bytes 2 4 @ replicate 1004 0 @
     dir_inode_bytes 3 0 0 @ dir_inode_bytes 0 0 0 @ replicate 960 0 @
     replicate 1024 0"

text \<open>The free directory slot in the words of the specification: the first entry with
  inode number 0 in the allocated zones of the directory, block order and then in-block
  order, as the pair of the zone and the offset in its block; \<open>None\<close> when every
  allocated zone is exhausted.\<close>

definition spec_free_directory_slot :: "image \<Rightarrow> nat \<Rightarrow> nat list \<Rightarrow> (nat \<times> nat) option" where
  "spec_free_directory_slot f max_filename_length zones =
     find (\<lambda>(z, offset).
             entry_ino max_filename_length (file_read f (z * BLOCK_SIZE) BLOCK_SIZE) offset = 0)
       (concat (map (\<lambda>z. map (Pair z) (entry_offsets max_filename_length))
                  (filter (\<lambda>z. z \<noteq> EMPTY) zones)))"

text \<open>Scenario C: every inode is free (\<open>nlinks = 0\<close>); the record of inode 1 still
  names block 3, an empty directory block, as its first zone; block 4 is a free data
  block.\<close>

definition image_C :: image where
  "image_C =
     replicate 1024 0 @
     sb_bytes 32 5 @ replicate 1004 0 @
     (replicate 14 0 @ [3, 0] @ replicate 16 0) @ replicate 992 0 @
     replicate 1024 0 @
     replicate 1024 0"

text \<open>The inode record that \<open>create_new_directory\<close> packs at the time 1700000000.\<close>

definition new_dir_inode_bytes :: "byte list" where
  "new_dir_inode_bytes =
     [0xC0, 0x41,  0, 0,  0, 4, 0, 0,  0x00, 0xF1, 0x53, 0x65,  0,  2,
      0, 0,  0, 0,  0, 0,  0, 0,  0, 0,  0, 0,  0, 0,  0, 0,  0, 0]"

text \<open>\<open>image_C\<close> with the new inode record written over inode 1 and the entry
  \<open>("sub", 1)\<close> written at the start of block 3.\<close>

definition image_C_after :: image where
  "image_C_after =
     file_write (file_write image_C 2048 new_dir_inode_bytes) 3072 (entry_bytes 1 ''sub'')"

text \<open>A regular file inode record with one link, the given size and first zone.\<close>

definition file_inode_bytes :: "byte \<Rightarrow> byte \<Rightarrow> byte list" where
  "file_inode_bytes len z0 =
     [0xC0, 0x81,  0, 0,  len, 0, 0, 0,  0, 0, 0, 0,  0,  1,
      z0, 0,  0, 0,  0, 0,  0, 0,  0, 0,  0, 0,  0, 0,  0, 0,  0, 0]"

text \<open>The root directory (inode 1, block 3) has the directory \<open>d\<close> (inode 2, block 4),
  which has the file \<open>foo\<close> (inode 3, block 5) with the three bytes \<open>abc\<close>.\<close>

definition image_G :: image where
  "image_G =
     replicate 1024 0 @
     sb_bytes 32 6 @ replicate 1004 0 @
     dir_inode_bytes 3 0 0 @ dir_inode_bytes 4 0 0 @ file_inode_bytes 3 5 @ replicate 928 0 @
     entry_bytes 2 ''d'' @ replicate 1008 0 @
     entry_bytes 3 ''foo'' @ replicate 1008 0 @
     utf8 ''abc'' @ replicate 1021 0"

text \<open>The indirect blocks that \<open>read_file_data\<close> fetches lie inside the image: the block of
  the indirect slot when bytes remain behind the direct zones, the block of the double
  indirect slot and the blocks it names when bytes remain behind the indirect zones.\<close>

definition needed_blocks_present :: "image \<Rightarrow> inode \<Rightarrow> bool" where
  "needed_blocks_present f ino \<longleftrightarrow>
     (let direct = filter (\<lambda>z. z \<noteq> 0) (take 7 (i_zone ino));
          r1 = i_size ino - 1024 * length direct;
          indirect = (if 0 < r1 \<and> i_zone ino ! 7 \<noteq> 0
                      then indirect_entries f (i_zone ino ! 7) else []);
          r2 = r1 - 1024 * length indirect
      in (0 < r1 \<and> i_zone ino ! 7 \<noteq> 0 \<longrightarrow> block_present f (i_zone ino ! 7)) \<and>
         (0 < r2 \<and> i_zone ino ! 8 \<noteq> 0 \<longrightarrow>
            block_present f (i_zone ino ! 8) \<and>
            (\<forall>a \<in> set (indirect_entries f (i_zone ino ! 8)). block_present f a)))"

text \<open>An image of three blocks: block 1 is an indirect block with the single entry 2.\<close>

definition image_I :: image where
  "image_I = replicate 1024 0xAA @ ([2, 0] @ replicate 1022 0) @ replicate 1024 0xBB"

section \<open>The outcome of a directory scan, slot by slot\<close>








section \<open>Basic facts about bytes, files and records\<close>

lemma length_nat_le [simp]: "length (nat_le k v) = k"
  by (induction k arbitrary: v) auto

lemma le_nat_nat_le: "fits k v \<Longrightarrow> le_nat (nat_le k v) = v"
proof (induction k arbitrary: v)
  case 0
  then show ?case by (simp add: fits_def)
next
  case (Suc k)
  from Suc.prems have "v div 256 < 256 ^ k"
    by (simp add: fits_def less_mult_imp_div_less mult.commute)
  then have "le_nat (nat_le k (v div 256)) = v div 256"
    using Suc.IH by (simp add: fits_def)
  then show ?case by (simp add: unat_of_nat)
qed

lemma nat_le_1: "nat_le 1 v = [of_nat (v mod 256)]"
  by simp

lemma nat_le_2: "nat_le 2 v = [of_nat (v mod 256), of_nat (v div 256 mod 256)]"
  by (simp add: numeral_2_eq_2)

lemma nat_le_4:
  "nat_le 4 v = [of_nat (v mod 256), of_nat (v div 256 mod 256),
                 of_nat (v div 256 div 256 mod 256), of_nat (v div 256 div 256 div 256 mod 256)]"
proof -
  have "(4::nat) = Suc (Suc (Suc (Suc 0)))"
    by simp
  then show ?thesis
    by (simp only: nat_le.simps)
qed

lemma replicate_9: "replicate 9 x = [x, x, x, x, x, x, x, x, x]"
  by (simp add: eval_nat_numeral)

lemma str_len_ascii: "\<forall>b \<in> set s. b < 0x80 \<Longrightarrow> str_len s = length s"
  by (induction s) (simp_all add: seq_len_def lead_len_def)

lemma file_read_write_same: "n = length bs \<Longrightarrow> file_read (file_write f pos bs) pos n = bs"
  by (simp add: file_read_def file_write_def)

lemma length_pack_inode: "pack_inode ino = Inr bs \<Longrightarrow> length bs = 32"
  by (auto simp: pack_inode_def length_concat comp_def sum_list_triv split: if_splits)

lemma nine_elements:
  "length zs = 9 \<Longrightarrow> \<exists>a b c d e f g h i. zs = [a, b, c, d, e, f, g, h, i]"
  by (auto simp: length_Suc_conv eval_nat_numeral)

lemma unpack_pack_inode: "pack_inode ino = Inr bs \<Longrightarrow> unpack_inode bs = Inr ino"
proof -
  assume p: "pack_inode ino = Inr bs"
  then have "length (i_zone ino) = 9"
    by (auto simp: pack_inode_def split: if_splits)
  then obtain a b c d e f g h i where zs: "i_zone ino = [a, b, c, d, e, f, g, h, i]"
    using nine_elements by blast
  have b1: "\<And>v. fits (Suc 0) v \<Longrightarrow> unat (word_of_nat (v mod 256) :: byte) = v"
    by (simp add: fits_def unat_of_nat)
  from p zs show ?thesis
    by (cases ino)
      (auto simp: pack_inode_def unpack_inode_def le_nat_nat_le b1 upt_rec split: if_splits)
qed

lemma inode_offset_of_eq:
  "sb ''imap_blocks'' = Some imap \<Longrightarrow> sb ''zmap_blocks'' = Some zmap \<Longrightarrow> 1 \<le> n \<Longrightarrow>
   inode_offset_of sb n = Inr ((2 + imap + zmap) * 1024 + (n - 1) * 32)"
  by (simp add: inode_offset_of_def sb_get_def nat_add_distrib nat_mult_distrib
      nat_diff_distrib' algebra_simps)

section \<open>The inode record round trip\<close>

text \<open>
  C8. For an inode number \<open>n \<ge> 1\<close> (so for every valid number in \<open>[1, num_inodes]\<close>): when
  a record is encoded with \<open>struct.pack("<HHIIBB9H", ...)\<close> and written at the offset
  that the code computes for \<open>n\<close>, \<open>parse_inode\<close> of \<open>n\<close> on the resulting image returns
  that record, with every field (mode, uid, size, mtime, gid, nlinks and the nine zone
  slots) unchanged.
\<close>

theorem C8_inode_roundtrip:
  assumes "sb ''imap_blocks'' = Some imap" and "sb ''zmap_blocks'' = Some zmap"
    and "1 \<le> n" and "pack_inode ino = Inr bs"
  shows "inode_offset_of sb n = Inr ((2 + imap + zmap) * 1024 + (n - 1) * 32) \<and>
         parse_inode (file_write f ((2 + imap + zmap) * 1024 + (n - 1) * 32) bs) sb n = Inr ino"
proof -
  have off: "inode_offset_of sb n = Inr ((2 + imap + zmap) * 1024 + (n - 1) * 32)"
    using assms(1-3) by (rule inode_offset_of_eq)
  show ?thesis
    using off assms(4)
    by (simp add: parse_inode_def file_read_write_same length_pack_inode unpack_pack_inode)
qed

theorem C8_inode_roundtrip_witness:
  "pack_inode (new_file_inode 1700000000) =
     Inr [0xC0, 0x81, 0, 0, 0, 0, 0, 0, 0x00, 0xF1, 0x53, 0x65, 0, 1,
          0, 0, 0, 0, 0, 0, 0, 0, 0, 0, 0, 0, 0, 0, 0, 0, 0, 0] \<and>
   parse_inode
     (file_write (replicate 4096 0) 3136
        [0xC0, 0x81, 0, 0, 0, 0, 0, 0, 0x00, 0xF1, 0x53, 0x65, 0, 1,
         0, 0, 0, 0, 0, 0, 0, 0, 0, 0, 0, 0, 0, 0, 0, 0, 0, 0])
     [''imap_blocks'' \<mapsto> 1, ''zmap_blocks'' \<mapsto> 0] 3 = Inr (new_file_inode 1700000000)"
proof -
  have p: "pack_inode (new_file_inode 1700000000) =
     Inr [0xC0, 0x81, 0, 0, 0, 0, 0, 0, 0x00, 0xF1, 0x53, 0x65, 0, 1,
          0, 0, 0, 0, 0, 0, 0, 0, 0, 0, 0, 0, 0, 0, 0, 0, 0, 0]"
    by (simp add: pack_inode_def new_file_inode_def fits_def nat_le_1 nat_le_2 nat_le_4
        replicate_9)
  have a: "[''imap_blocks'' \<mapsto> 1, ''zmap_blocks'' \<mapsto> (0::nat)] ''imap_blocks'' = Some 1" by simp
  have b: "[''imap_blocks'' \<mapsto> 1, ''zmap_blocks'' \<mapsto> (0::nat)] ''zmap_blocks'' = Some 0" by simp
  have c: "1 \<le> (3::nat)" by simp
  have d: "(2 + 1 + 0) * 1024 + (3 - 1) * 32 = (3136::nat)" by simp
  show ?thesis
    using C8_inode_roundtrip [OF a b c p, of "replicate 4096 0"] p unfolding d by blast
qed

section \<open>Reading a file\<close>

lemma gather_0 [simp]: "gather f zs 0 = []"
  by (cases zs) auto

lemma gather_append:
  "gather f (xs @ ys) r = gather f xs r @ gather f ys (r - 1024 * length xs)"
proof (induction xs arbitrary: r)
  case Nil
  then show ?case by simp
next
  case (Cons x xs)
  have "r - min 1024 r - 1024 * length xs = r - (1024 + 1024 * length xs)"
    by (simp add: min_def)
  with Cons show ?case by simp
qed

lemma read_direct_eq:
  "read_direct f zs c r =
     (c @ gather f (filter (\<lambda>z. z \<noteq> 0) zs) r, r - 1024 * length (filter (\<lambda>z. z \<noteq> 0) zs))"
proof (induction zs arbitrary: c r)
  case Nil
  then show ?case by simp
next
  case (Cons z zs)
  have "r - min 1024 r - 1024 * n = r - (1024 + 1024 * n)" for n
    by (simp add: min_def)
  with Cons show ?case by (simp add: Let_def)
qed

lemma read_blocks_eq:
  "read_blocks f bs c r = (c @ gather f bs r, r - 1024 * length bs)"
proof (induction bs arbitrary: c r)
  case Nil
  then show ?case by simp
next
  case (Cons b bs)
  have "r - min 1024 r - 1024 * n = r - (1024 + 1024 * n)" for n
    by (simp add: min_def)
  with Cons show ?case by (simp add: Let_def)
qed

lemma length_file_read_present:
  "block_present f z \<Longrightarrow> length (file_read f (z * 1024) 1024) = 1024"
  by (simp add: block_present_def file_read_def)

lemma fetch_indirect_present:
  "block_present f z \<Longrightarrow> fetch_indirect_block_addresses f z = Inr (indirect_entries f z)"
  by (simp add: fetch_indirect_block_addresses_def indirect_entries_def Let_def
      length_file_read_present)

lemma fetch_each_present:
  "\<forall>a \<in> set as. block_present f a \<Longrightarrow>
   fetch_each f as acc = Inr (acc @ concat (map (indirect_entries f) as))"
  by (induction as arbitrary: acc) (auto simp: fetch_indirect_present)

lemma fetch_double_present:
  "block_present f z \<Longrightarrow> \<forall>a \<in> set (indirect_entries f z). block_present f a \<Longrightarrow>
   fetch_double_indirect_block_addresses f z =
     Inr (concat (map (indirect_entries f) (indirect_entries f z)))"
  by (simp add: fetch_double_indirect_block_addresses_def fetch_indirect_present
      fetch_each_present)

lemma read_through_eq:
  assumes "k < length (i_zone ino)"
    and "i_zone ino ! k \<noteq> 0 \<Longrightarrow> fetch f (i_zone ino ! k) = Inr bs"
  shows "read_through f ino k fetch (c, r) =
     Inr (c @ gather f (if i_zone ino ! k \<noteq> 0 then bs else []) r,
          r - 1024 * length (if i_zone ino ! k \<noteq> 0 then bs else []))"
  using assms by (simp add: read_through_def zone_at_def read_blocks_eq)

lemma read_file_data_eq:
  assumes "length (i_zone ino) = 9" and "indirect_blocks_present f ino"
  shows "read_file_data f ino = Inr (gather f (resolved_zones f ino) (i_size ino))"
proof -
  define D where "D = filter (\<lambda>z. z \<noteq> 0) (take 7 (i_zone ino))"
  define I where
    "I = (if i_zone ino ! 7 \<noteq> 0 then indirect_entries f (i_zone ino ! 7) else [])"
  define J where
    "J = (if i_zone ino ! 8 \<noteq> 0
          then concat (map (indirect_entries f) (indirect_entries f (i_zone ino ! 8))) else [])"
  have s1: "read_direct f (take 7 (i_zone ino)) [] (i_size ino) =
      (gather f D (i_size ino), i_size ino - 1024 * length D)"
    by (simp add: read_direct_eq D_def)
  have f7: "i_zone ino ! 7 \<noteq> 0 \<Longrightarrow>
      fetch_indirect_block_addresses f (i_zone ino ! 7) = Inr (indirect_entries f (i_zone ino ! 7))"
    using assms(2) by (simp add: indirect_blocks_present_def fetch_indirect_present)
  have f8: "i_zone ino ! 8 \<noteq> 0 \<Longrightarrow>
      fetch_double_indirect_block_addresses f (i_zone ino ! 8) =
        Inr (concat (map (indirect_entries f) (indirect_entries f (i_zone ino ! 8))))"
    using assms(2) by (simp add: indirect_blocks_present_def fetch_double_present)
  have s2: "read_through f ino 7 fetch_indirect_block_addresses (c, r) =
      Inr (c @ gather f I r, r - 1024 * length I)" for c r
    unfolding I_def
    by (rule read_through_eq) (use assms(1) f7 in simp_all)
  have s3: "read_through f ino 8 fetch_double_indirect_block_addresses
      (c, r) = Inr (c @ gather f J r, r - 1024 * length J)" for c r
    unfolding J_def
    by (rule read_through_eq) (use assms(1) f8 in simp_all)
  have r: "resolved_zones f ino = D @ I @ J"
    by (simp add: resolved_zones_def D_def I_def J_def)
  have g: "gather f (D @ I @ J) n =
      gather f D n @ gather f I (n - 1024 * length D) @
      gather f J (n - 1024 * length D - 1024 * length I)" for n
    by (simp add: gather_append)
  show ?thesis
    by (simp add: read_file_data_def s1 s2 s3 r g)
qed

lemma length_gather_le: "length (gather f zs r) \<le> r"
proof (induction zs arbitrary: r)
  case Nil
  then show ?case by simp
next
  case (Cons z zs)
  have "length (gather f zs (r - min 1024 r)) \<le> r - min 1024 r"
    by (rule Cons.IH)
  then show ?case by (auto simp: file_read_def)
qed

section \<open>Scanning directory blocks\<close>

lemma unpack_entry_ok:
  "length (entry_slice m bd off) = entry_size m \<Longrightarrow>
   unpack_entry m (entry_slice m bd off) =
     Inr (le_nat (take 2 (entry_slice m bd off)), drop 2 (entry_slice m bd off))"
  by (simp add: unpack_entry_def)

lemma list_block_eq:
  "\<forall>off \<in> set offs. length (entry_slice m bd off) = entry_size m \<Longrightarrow>
   list_block m bd offs acc =
     Inr (acc @ map snd (filter (\<lambda>e. fst e \<noteq> 0) (entries_at m bd offs)))"
  by (induction offs arbitrary: acc)
    (simp_all add: unpack_entry_ok entries_at_def entry_ino_def entry_name_def)

lemma list_zones_eq:
  "\<forall>bd \<in> set (dir_blocks f zs). whole_block m bd \<Longrightarrow>
   list_zones f m zs acc =
     Inr (acc @ map snd (filter (\<lambda>e. fst e \<noteq> 0) (dir_entries f m zs)))"
proof (induction zs arbitrary: acc)
  case Nil
  then show ?case by (simp add: dir_entries_def dir_blocks_def)
next
  case (Cons z zs)
  show ?case
  proof (cases "z = 0")
    case True
    with Cons show ?thesis by (simp add: dir_entries_def dir_blocks_def)
  next
    case False
    with Cons.prems have w: "whole_block m (file_read f (z * 1024) 1024)"
      and r: "\<forall>bd \<in> set (dir_blocks f zs). whole_block m bd"
      by (simp_all add: dir_blocks_def)
    from w have "list_block m (file_read f (z * 1024) 1024) (entry_offsets m) acc =
        Inr (acc @ map snd (filter (\<lambda>e. fst e \<noteq> 0)
               (block_entries m (file_read f (z * 1024) 1024))))"
      by (simp add: list_block_eq whole_block_def block_entries_def)
    with False Cons.IH [OF r] show ?thesis
      by (simp add: dir_entries_def dir_blocks_def)
  qed
qed

lemma find_in_block_eq:
  "\<forall>off \<in> set offs. length (entry_slice m bd off) = entry_size m \<Longrightarrow>
   \<forall>e \<in> set (entries_at m bd offs). utf8_valid (snd e) \<Longrightarrow>
   find_in_block m bd name offs =
     Inr (map_option fst (find (\<lambda>e. snd e = name) (entries_at m bd offs)))"
  by (induction offs)
    (simp_all add: unpack_entry_ok entries_at_def entry_ino_def entry_name_def decode_def)

lemma find_append_eq:
  "find P (xs @ ys) = (case find P xs of None \<Rightarrow> find P ys | Some x \<Rightarrow> Some x)"
  by (induction xs) auto

lemma find_in_zones_eq:
  "\<forall>bd \<in> set (dir_blocks f zs). whole_block m bd \<Longrightarrow>
   \<forall>e \<in> set (dir_entries f m zs). utf8_valid (snd e) \<Longrightarrow>
   find_in_zones f m name zs =
     Inr (map_option fst (find (\<lambda>e. snd e = name) (dir_entries f m zs)))"
proof (induction zs)
  case Nil
  then show ?case by (simp add: dir_entries_def dir_blocks_def)
next
  case (Cons z zs)
  show ?case
  proof (cases "z = 0")
    case True
    with Cons show ?thesis by (simp add: dir_entries_def dir_blocks_def)
  next
    case False
    let ?bd = "file_read f (z * 1024) 1024"
    from False Cons.prems have w: "whole_block m ?bd"
      and r: "\<forall>bd \<in> set (dir_blocks f zs). whole_block m bd"
      and v: "\<forall>e \<in> set (block_entries m ?bd). utf8_valid (snd e)"
      and vr: "\<forall>e \<in> set (dir_entries f m zs). utf8_valid (snd e)"
      by (simp_all add: dir_blocks_def dir_entries_def)
    from w v have b: "find_in_block m ?bd name (entry_offsets m) =
        Inr (map_option fst (find (\<lambda>e. snd e = name) (block_entries m ?bd)))"
      by (simp add: find_in_block_eq whole_block_def block_entries_def)
    have d: "dir_entries f m (z # zs) = block_entries m ?bd @ dir_entries f m zs"
      using False by (simp add: dir_entries_def dir_blocks_def)
    show ?thesis
      using False b Cons.IH [OF r vr]
      by (cases "find (\<lambda>e. snd e = name) (block_entries m ?bd)")
        (simp_all add: d find_append_eq)
  qed
qed

lemma find_free_entry_eq:
  "\<forall>off \<in> set offs. length (entry_slice m bd off) = entry_size m \<Longrightarrow>
   find_free_entry m bd offs = Inr (find (\<lambda>off. entry_ino m bd off = 0) offs)"
  by (induction offs) (simp_all add: unpack_entry_ok entry_ino_def)

lemma length_zones_parse_inode: "parse_inode f sb n = Inr ino \<Longrightarrow> length (i_zone ino) = 9"
  by (auto simp: parse_inode_def unpack_inode_def split: sum.splits if_splits)


lemma entry_offsets_14: "entry_offsets 14 = map (\<lambda>i. i * 16) [0 ..< 64]"
  by (simp add: entry_offsets_def entry_size_def)

lemma entry_offsets_30: "entry_offsets 30 = map (\<lambda>i. i * 32) [0 ..< 32]"
  by (simp add: entry_offsets_def entry_size_def)

lemma whole_block_14: "length bd = 1024 \<Longrightarrow> whole_block 14 bd"
  by (auto simp: whole_block_def entry_offsets_14 entry_slice_def entry_size_def)

lemma whole_block_30: "length bd = 1024 \<Longrightarrow> whole_block 30 bd"
  by (auto simp: whole_block_def entry_offsets_30 entry_slice_def entry_size_def)

lemma le_nat_zeros [simp]: "le_nat (replicate k 0) = 0"
  by (induction k) auto

lemma rstrip0_zeros [simp]: "rstrip0 (replicate k 0) = []"
proof -
  have "dropWhile (\<lambda>x. x = 0) (replicate k (0::byte)) = []"
    by (induction k) auto
  then show ?thesis by (simp add: rstrip0_def)
qed

lemma rstrip0_append_zeros: "rstrip0 (bs @ replicate k 0) = rstrip0 bs"
proof -
  have "dropWhile (\<lambda>x. x = 0) (replicate k (0::byte) @ ys) = dropWhile (\<lambda>x. x = 0) ys" for ys
    by (induction k) auto
  then show ?thesis by (simp add: rstrip0_def)
qed

lemma rstrip0_last: "bs \<noteq> [] \<Longrightarrow> last bs \<noteq> 0 \<Longrightarrow> rstrip0 bs = bs"
  by (cases bs rule: rev_cases) (auto simp: rstrip0_def)

lemma upt_Suc_shift: "[0 ..< Suc n] = 0 # map Suc [0 ..< n]"
  by (simp add: upt_conv_Cons map_Suc_upt del: upt_Suc)

lemma entries_at_Cons:
  assumes "length e = entry_size m"
  shows "entries_at m (e @ rest) (map (\<lambda>i. i * entry_size m) [0 ..< Suc n]) =
         (le_nat (take 2 e), rstrip0 (drop 2 e)) #
         entries_at m rest (map (\<lambda>i. i * entry_size m) [0 ..< n])"
proof -
  have h: "entry_slice m (e @ rest) 0 = e"
    using assms by (simp add: entry_slice_def)
  have t: "entry_slice m (e @ rest) (Suc i * entry_size m) = entry_slice m rest (i * entry_size m)"
    for i using assms by (simp add: entry_slice_def)
  show ?thesis
    unfolding upt_Suc_shift
    by (simp add: entries_at_def entry_ino_def entry_name_def h t comp_def del: mult_Suc)
qed

lemma entry_slice_replicate:
  "off + entry_size m \<le> k \<Longrightarrow> entry_slice m (replicate k x) off = replicate (entry_size m) x"
  by (simp add: entry_slice_def min_def)

lemma entries_at_zeros:
  assumes "n * entry_size m \<le> k"
  shows "entries_at m (replicate k 0) (map (\<lambda>i. i * entry_size m) [0 ..< n]) = replicate n (0, [])"
proof -
  have "(entry_ino m (replicate k 0) (i * entry_size m),
         entry_name m (replicate k 0) (i * entry_size m)) = (0, [])" if "i < n" for i
  proof -
    from that have "Suc i * entry_size m \<le> n * entry_size m"
      by (intro mult_le_mono1) simp
    with assms have "i * entry_size m + entry_size m \<le> k" by simp
    then show ?thesis
      by (simp add: entry_ino_def entry_name_def entry_slice_replicate)
  qed
  then have "map (\<lambda>i. (entry_ino m (replicate k 0) (i * entry_size m),
                         entry_name m (replicate k 0) (i * entry_size m))) [0 ..< n] =
             map (\<lambda>i. (0, [])) [0 ..< n]"
    by (intro map_cong) auto
  then show ?thesis
    by (simp add: entries_at_def comp_def map_replicate_const)
qed

lemma find_replicate:
  "find P (replicate n x) = (if 0 < n \<and> P x then Some x else None)"
  by (induction n) auto

section \<open>Listing the root directory\<close>

lemma parse_superblock_sb_bytes:
  "parse_superblock (sb_bytes n z @ rest) = Inr (sb_example (unat n) (unat z))"
  by (simp add: parse_superblock_def sb_fields_def sb_bytes_def sb_example_def)

lemma read_superblock_A: "read_superblock image_A = Inr (sb_example 32 4)"
proof -
  have "file_read image_A 1024 1024 = sb_bytes 32 4 @ replicate 1004 0"
    by (simp add: image_A_def file_read_def sb_bytes_def)
  then show ?thesis
    by (simp add: read_superblock_def parse_superblock_sb_bytes)
qed

lemma inode_offset_of_example:
  "inode_offset_of (sb_example a b) (Suc n) = Inr (2048 + n * 32)"
  by (simp add: inode_offset_of_def sb_get_def sb_example_def nat_add_distrib nat_mult_distrib)

lemma unpack_dir_inode_bytes:
  "unpack_inode (dir_inode_bytes z0 z1 z7) =
     Inr \<lparr> i_mode = 0x41ED, i_uid = 0, i_size = 64, i_time = 0, i_gid = 0, i_nlinks = 2,
           i_zone = [unat z0, unat z1, 0, 0, 0, 0, 0, unat z7, 0] \<rparr>"
  by (simp add: unpack_inode_def dir_inode_bytes_def upt_rec)

lemma max_filename_length_of_eq:
  "sb ''magic'' = Some magic \<Longrightarrow>
   max_filename_length_of sb = Inr (if magic = 0x138F then 30 else 14)"
  by (simp add: max_filename_length_of_def sb_get_def)

lemma list_single_entry:
  assumes w: "length bd = 1024"
    and e: "entry_slice 14 bd 0 = nat_le 2 i @ name @ replicate k 0"
    and i: "i \<noteq> 0" "fits 2 i"
    and n: "name \<noteq> []" "last name \<noteq> 0"
    and r: "\<forall>off \<in> set (tl (entry_offsets 14)). entry_ino 14 bd off = 0"
  shows "map snd (filter (\<lambda>e. fst e \<noteq> 0) (block_entries 14 bd)) = [name]"
proof -
  have o: "entry_offsets 14 = 0 # tl (entry_offsets 14)"
    by (simp add: entry_offsets_14 upt_conv_Cons)
  have f: "filter (\<lambda>e. fst e \<noteq> 0) (entries_at 14 bd (tl (entry_offsets 14))) = []"
    using r by (auto simp: entries_at_def filter_empty_conv)
  have i0: "entry_ino 14 bd 0 = i"
    using e i(2) le_nat_nat_le [of 2 i] by (simp add: entry_ino_def)
  have n0: "entry_name 14 bd 0 = name"
    using e n by (simp add: entry_name_def rstrip0_append_zeros rstrip0_last)
  have "block_entries 14 bd = (i, name) # entries_at 14 bd (tl (entry_offsets 14))"
    unfolding block_entries_def by (subst o) (simp add: entries_at_def i0 n0)
  then show ?thesis
    using f i(1) by simp
qed

text \<open>
  C10. The width of the name field is 30 if the magic number is 0x138F and 14 otherwise.
  On an image with magic number 0x137F whose root inode has a single direct zone, with
  the entry \<open>("foo", 5)\<close> first and only empty slots (inode number 0) behind it, the
  command \<open>ls\<close> prints exactly \<open>foo\<close>.
\<close>

theorem C10_list_root_directory:
  assumes "read_superblock f = Inr sb" and "sb ''magic'' = Some 0x137F"
    and "parse_inode f sb 1 = Inr root" and "i_zone root = [z, 0, 0, 0, 0, 0, 0, 0, 0]"
    and "z \<noteq> 0" and "length (file_read f (z * 1024) 1024) = 1024"
    and "entry_slice 14 (file_read f (z * 1024) 1024) 0 = nat_le 2 5 @ utf8 ''foo'' @ replicate 11 0"
    and "\<forall>off \<in> set (tl (entry_offsets 14)). entry_ino 14 (file_read f (z * 1024) 1024) off = 0"
  shows "(\<forall>sb' magic. sb' ''magic'' = Some magic \<longrightarrow>
            max_filename_length_of sb' = Inr (if magic = 0x138F then 30 else 14)) \<and>
         main_ls f = Returned [utf8 ''foo'']"
proof -
  let ?bd = "file_read f (z * 1024) 1024"
  have m: "max_filename_length_of sb = Inr 14"
    using assms(2) by (simp add: max_filename_length_of_eq)
  have d: "dir_blocks f (i_zone root) = [?bd]"
    using assms(4,5) by (simp add: dir_blocks_def)
  have l: "map snd (filter (\<lambda>e. fst e \<noteq> 0) (block_entries 14 ?bd)) = [utf8 ''foo'']"
    by (rule list_single_entry [OF assms(6,7) _ _ _ _ assms(8)])
      (simp_all add: fits_def utf8_def)
  have "list_zones f 14 (i_zone root) [] =
      Inr ([] @ map snd (filter (\<lambda>e. fst e \<noteq> 0) (dir_entries f 14 (i_zone root))))"
    by (rule list_zones_eq) (simp add: d whole_block_14 assms(6))
  then have "read_root_directory_entries f sb 14 = Inr [utf8 ''foo'']"
    using assms(3) l by (simp add: read_root_directory_entries_def dir_entries_def d)
  then have "main_ls f = Returned [utf8 ''foo'']"
    using assms(1) m by (simp add: main_ls_def print_root_directory_def)
  then show ?thesis
    by (simp add: max_filename_length_of_eq)
qed

lemma entry_ino_zero_tail:
  assumes "length e = 16" and "off \<in> set (tl (entry_offsets 14))"
  shows "entry_ino 14 (e @ replicate 1008 0) off = 0"
proof -
  from assms(2) obtain i where i: "off = i * 16" "1 \<le> i" "i < 64"
    by (auto simp: entry_offsets_14 upt_conv_Cons map_Suc_upt [symmetric] simp del: upt_Suc)
  then have "entry_slice 14 (e @ replicate 1008 0) off = replicate 16 0"
    using assms(1) by (simp add: entry_slice_def entry_size_def min_def)
  then show ?thesis
    by (simp add: entry_ino_def)
qed

theorem C10_list_root_directory_witness: "main_ls image_A = Returned [utf8 ''foo'']"
proof -
  have b: "file_read image_A (3 * 1024) 1024 = entry_bytes 5 ''foo'' @ replicate 1008 0"
    by (simp add: image_A_def file_read_def sb_bytes_def dir_inode_bytes_def entry_bytes_def
        utf8_def)
  have r: "parse_inode image_A (sb_example 32 4) 1 =
      Inr \<lparr> i_mode = 0x41ED, i_uid = 0, i_size = 64, i_time = 0, i_gid = 0, i_nlinks = 2,
            i_zone = [3, 0, 0, 0, 0, 0, 0, 0, 0] \<rparr>"
  proof -
    have "file_read image_A 2048 32 = dir_inode_bytes 3 0 0"
      by (simp add: image_A_def file_read_def sb_bytes_def dir_inode_bytes_def)
    then show ?thesis
      using inode_offset_of_example [of 32 4 0] unpack_dir_inode_bytes [of 3 0 0]
      by (simp add: parse_inode_def)
  qed
  have e: "entry_slice 14 (file_read image_A (3 * 1024) 1024) 0 =
      nat_le 2 5 @ utf8 ''foo'' @ replicate 11 0"
    unfolding b by (simp add: entry_slice_def entry_size_def entry_bytes_def nat_le_2 utf8_def)
  have t: "\<forall>off \<in> set (tl (entry_offsets 14)).
      entry_ino 14 (file_read image_A (3 * 1024) 1024) off = 0"
    unfolding b by (intro ballI entry_ino_zero_tail) (simp_all add: entry_bytes_def utf8_def)
  show ?thesis
    using C10_list_root_directory [OF read_superblock_A _ r _ _ _ e t] b
    by (simp add: sb_example_def entry_bytes_def utf8_def)
qed

section \<open>The zone slots that a directory scan reads\<close>

lemma zones_nth_all: "length zs = 9 \<Longrightarrow> map (\<lambda>k. zs ! k) [0 ..< 9] = zs"
  by (metis map_nth)

text \<open>
  C6. Listing and lookup go through all nine zone slots of the directory inode, the
  slots 7 (indirect) and 8 (double indirect) included, and read the block of every
  non-zero slot as 1024 bytes of directory entries; no slot is expanded as a block of
  zone numbers. So the result of the listing, of \<open>find_inode_of_directory\<close> and of
  \<open>cat_file\<close> is determined by the entries of these blocks, in slot order.
\<close>

theorem C6_directory_scan_reads_all_slots:
  assumes "parse_inode f sb n = Inr ino"
    and "\<forall>bd \<in> set (dir_blocks f (i_zone ino)). whole_block mfl bd"
  shows "length (i_zone ino) = 9 \<and>
    dir_blocks f (i_zone ino) =
      map (\<lambda>z. file_read f (z * 1024) 1024)
        (filter (\<lambda>z. z \<noteq> 0) (map (\<lambda>k. i_zone ino ! k) [0 ..< 9])) \<and>
    (n = 1 \<longrightarrow> read_root_directory_entries f sb mfl =
       Inr (map snd (filter (\<lambda>e. fst e \<noteq> 0) (dir_entries f mfl (i_zone ino))))) \<and>
    ((\<forall>e \<in> set (dir_entries f mfl (i_zone ino)). utf8_valid (snd e)) \<longrightarrow>
       find_inode_of_directory f sb name mfl n =
         Inr (map_option fst (find (\<lambda>e. snd e = name) (dir_entries f mfl (i_zone ino)))) \<and>
       cat_file f sb n name mfl =
         (case find (\<lambda>e. snd e = name) (dir_entries f mfl (i_zone ino)) of
            None \<Rightarrow> Printed FileNotFound
          | Some e \<Rightarrow>
              (case parse_inode f sb (fst e) of Inl x \<Rightarrow> Raised x
               | Inr file_inode \<Rightarrow>
                   (case read_file_data f file_inode of Inl x \<Rightarrow> Raised x
                    | Inr file_content \<Rightarrow> Returned file_content))))"
proof (intro conjI impI)
  show l: "length (i_zone ino) = 9"
    using assms(1) by (rule length_zones_parse_inode)
  show "dir_blocks f (i_zone ino) =
      map (\<lambda>z. file_read f (z * 1024) 1024)
        (filter (\<lambda>z. z \<noteq> 0) (map (\<lambda>k. i_zone ino ! k) [0 ..< 9]))"
    unfolding zones_nth_all [OF l] by (simp add: dir_blocks_def)
next
  assume "n = 1"
  then show "read_root_directory_entries f sb mfl =
       Inr (map snd (filter (\<lambda>e. fst e \<noteq> 0) (dir_entries f mfl (i_zone ino))))"
    using assms(1) list_zones_eq [OF assms(2), of "[]"]
    by (simp add: read_root_directory_entries_def)
next
  assume v: "\<forall>e \<in> set (dir_entries f mfl (i_zone ino)). utf8_valid (snd e)"
  show "find_inode_of_directory f sb name mfl n =
         Inr (map_option fst (find (\<lambda>e. snd e = name) (dir_entries f mfl (i_zone ino))))"
    using assms(1) find_in_zones_eq [OF assms(2) v]
    by (simp add: find_inode_of_directory_def)
next
  assume v: "\<forall>e \<in> set (dir_entries f mfl (i_zone ino)). utf8_valid (snd e)"
  show "cat_file f sb n name mfl =
         (case find (\<lambda>e. snd e = name) (dir_entries f mfl (i_zone ino)) of
            None \<Rightarrow> Printed FileNotFound
          | Some e \<Rightarrow>
              (case parse_inode f sb (fst e) of Inl x \<Rightarrow> Raised x
               | Inr file_inode \<Rightarrow>
                   (case read_file_data f file_inode of Inl x \<Rightarrow> Raised x
                    | Inr file_content \<Rightarrow> Returned file_content)))"
    using assms(1) find_in_zones_eq [OF assms(2) v, of name]
    by (cases "find (\<lambda>e. snd e = name) (dir_entries f mfl (i_zone ino))")
      (simp_all add: cat_file_def)
qed


lemma block_entries_one:
  assumes "length e = 16"
  shows "block_entries 14 (e @ replicate 1008 0) =
         (le_nat (take 2 e), rstrip0 (drop 2 e)) # replicate 63 (0, [])"
proof -
  have "entries_at 14 (e @ replicate 1008 0) (map (\<lambda>i. i * entry_size 14) [0 ..< Suc 63]) =
      (le_nat (take 2 e), rstrip0 (drop 2 e)) #
      entries_at 14 (replicate 1008 0) (map (\<lambda>i. i * entry_size 14) [0 ..< 63])"
    by (rule entries_at_Cons) (simp add: assms entry_size_def)
  moreover have "entries_at 14 (replicate 1008 0) (map (\<lambda>i. i * entry_size 14) [0 ..< 63]) =
      replicate 63 (0, [])"
    by (rule entries_at_zeros) (simp add: entry_size_def)
  ultimately show ?thesis
    by (simp add: block_entries_def entry_offsets_14 entry_size_def)
qed

lemma block_entries_two:
  assumes "length e1 = 16" and "length e2 = 16"
  shows "block_entries 14 (e1 @ e2 @ replicate 992 0) =
         (le_nat (take 2 e1), rstrip0 (drop 2 e1)) #
         (le_nat (take 2 e2), rstrip0 (drop 2 e2)) # replicate 62 (0, [])"
proof -
  have "entries_at 14 (e1 @ e2 @ replicate 992 0) (map (\<lambda>i. i * entry_size 14) [0 ..< Suc 63]) =
      (le_nat (take 2 e1), rstrip0 (drop 2 e1)) #
      entries_at 14 (e2 @ replicate 992 0) (map (\<lambda>i. i * entry_size 14) [0 ..< 63])"
    by (rule entries_at_Cons) (simp add: assms entry_size_def)
  moreover have "entries_at 14 (e2 @ replicate 992 0) (map (\<lambda>i. i * entry_size 14) [0 ..< Suc 62]) =
      (le_nat (take 2 e2), rstrip0 (drop 2 e2)) #
      entries_at 14 (replicate 992 0) (map (\<lambda>i. i * entry_size 14) [0 ..< 62])"
    by (rule entries_at_Cons) (simp add: assms entry_size_def)
  moreover have "entries_at 14 (replicate 992 0) (map (\<lambda>i. i * entry_size 14) [0 ..< 62]) =
      replicate 62 (0, [])"
    by (rule entries_at_zeros) (simp add: entry_size_def)
  ultimately show ?thesis
    by (simp add: block_entries_def entry_offsets_14 entry_size_def)
qed

lemma length_entry_bytes: "length name \<le> 14 \<Longrightarrow> length (entry_bytes i name) = 16"
  by (simp add: entry_bytes_def utf8_def)

lemma entry_bytes_decode:
  assumes "utf8 name \<noteq> []" and "last (utf8 name) \<noteq> 0"
  shows "le_nat (take 2 (entry_bytes i name)) = unat i"
    and "rstrip0 (drop 2 (entry_bytes i name)) = utf8 name"
proof -
  show "le_nat (take 2 (entry_bytes i name)) = unat i"
    by (simp add: entry_bytes_def)
  have "drop 2 (entry_bytes i name) = utf8 name @ replicate (14 - length name) 0"
    by (simp add: entry_bytes_def)
  then show "rstrip0 (drop 2 (entry_bytes i name)) = utf8 name"
    using assms by (simp add: rstrip0_append_zeros rstrip0_last)
qed

lemma entry_bytes_foo:
  "le_nat (take 2 (entry_bytes i ''foo'')) = unat i"
  "rstrip0 (drop 2 (entry_bytes i ''foo'')) = utf8 ''foo''"
  by (rule entry_bytes_decode; simp add: utf8_def)+

lemma entry_bytes_bar:
  "le_nat (take 2 (entry_bytes i ''bar'')) = unat i"
  "rstrip0 (drop 2 (entry_bytes i ''bar'')) = utf8 ''bar''"
  by (rule entry_bytes_decode; simp add: utf8_def)+

lemma parse_root_example:
  assumes "file_read f 2048 32 = dir_inode_bytes z0 z1 z7"
  shows "parse_inode f (sb_example a b) 1 =
     Inr \<lparr> i_mode = 0x41ED, i_uid = 0, i_size = 64, i_time = 0, i_gid = 0, i_nlinks = 2,
           i_zone = [unat z0, unat z1, 0, 0, 0, 0, 0, unat z7, 0] \<rparr>"
  using assms inode_offset_of_example [of a b 0] unpack_dir_inode_bytes [of z0 z1 z7]
  by (simp add: parse_inode_def)

theorem C6_directory_scan_reads_all_slots_witness:
  "read_root_directory_entries image_B (sb_example 32 5) 14 = Inr [utf8 ''foo'', utf8 ''bar''] \<and>
   find_inode_of_directory image_B (sb_example 32 5) (utf8 ''bar'') 14 1 = Inr (Some 6)"
proof -
  let ?root = "\<lparr> i_mode = 0x41ED, i_uid = 0, i_size = 64, i_time = 0, i_gid = 0, i_nlinks = 2,
           i_zone = [3, 0, 0, 0, 0, 0, 0, 4, 0] \<rparr>"
  have "file_read image_B 2048 32 = dir_inode_bytes 3 0 4"
    by (simp add: image_B_def file_read_def sb_bytes_def dir_inode_bytes_def)
  then have r: "parse_inode image_B (sb_example 32 5) 1 = Inr ?root"
    using parse_root_example [of image_B 3 0 4 32 5] by simp
  have b3: "file_read image_B (3 * 1024) 1024 = entry_bytes 5 ''foo'' @ replicate 1008 0"
    by (simp add: image_B_def file_read_def sb_bytes_def dir_inode_bytes_def entry_bytes_def
        utf8_def)
  have b4: "file_read image_B (4 * 1024) 1024 = entry_bytes 6 ''bar'' @ replicate 1008 0"
    by (simp add: image_B_def file_read_def sb_bytes_def dir_inode_bytes_def entry_bytes_def
        utf8_def)
  have d: "dir_blocks image_B (i_zone ?root) =
      [entry_bytes 5 ''foo'' @ replicate 1008 0, entry_bytes 6 ''bar'' @ replicate 1008 0]"
    using b3 b4 by (simp add: dir_blocks_def)
  have w: "\<forall>bd \<in> set (dir_blocks image_B (i_zone ?root)). whole_block 14 bd"
    unfolding d by (simp add: whole_block_14 length_entry_bytes)
  have e: "dir_entries image_B 14 (i_zone ?root) =
      ((5, utf8 ''foo'') # replicate 63 (0, [])) @ ((6, utf8 ''bar'') # replicate 63 (0, []))"
    unfolding dir_entries_def d
    by (simp add: block_entries_one length_entry_bytes entry_bytes_foo entry_bytes_bar)
  have v: "\<forall>e \<in> set (dir_entries image_B 14 (i_zone ?root)). utf8_valid (snd e)"
    unfolding e by (auto simp: utf8_def)
  from C6_directory_scan_reads_all_slots [OF r w, of "utf8 ''bar''"] v
  have "read_root_directory_entries image_B (sb_example 32 5) 14 =
          Inr (map snd (filter (\<lambda>e. fst e \<noteq> 0) (dir_entries image_B 14 (i_zone ?root))))"
    and "find_inode_of_directory image_B (sb_example 32 5) (utf8 ''bar'') 14 1 =
          Inr (map_option fst (find (\<lambda>e. snd e = utf8 ''bar'')
                 (dir_entries image_B 14 (i_zone ?root))))"
    by blast+
  then show ?thesis
    unfolding e by (simp add: find_append_eq find_replicate utf8_def)
qed

section \<open>Lookup and entries with inode number 0\<close>

text \<open>
  C4. The specification says that lookup skips the records whose inode number is 0 and returns the inode
  number of the first remaining record with the given name. On \<open>image_D\<close>, whose root
  directory has a record \<open>(0, "foo")\<close> before the record \<open>(5, "foo")\<close>, the listing skips
  the record with inode number 0, but \<open>find_inode_of_directory\<close> returns 0 for
  \<open>foo\<close>, not 5.
\<close>

theorem C4_lookup_returns_inode_zero:
  "read_root_directory_entries image_D (sb_example 32 4) 14 = Inr [utf8 ''foo''] \<and>
   find_inode_of_directory image_D (sb_example 32 4) (utf8 ''foo'') 14 1 = Inr (Some 0)"
proof -
  let ?root = "\<lparr> i_mode = 0x41ED, i_uid = 0, i_size = 64, i_time = 0, i_gid = 0, i_nlinks = 2,
           i_zone = [3, 0, 0, 0, 0, 0, 0, 0, 0] \<rparr>"
  have "file_read image_D 2048 32 = dir_inode_bytes 3 0 0"
    by (simp add: image_D_def file_read_def sb_bytes_def dir_inode_bytes_def)
  then have r: "parse_inode image_D (sb_example 32 4) 1 = Inr ?root"
    using parse_root_example [of image_D 3 0 0 32 4] by simp
  have b3: "file_read image_D (3 * 1024) 1024 =
      entry_bytes 0 ''foo'' @ entry_bytes 5 ''foo'' @ replicate 992 0"
    by (simp add: image_D_def file_read_def sb_bytes_def dir_inode_bytes_def entry_bytes_def
        utf8_def)
  have d: "dir_blocks image_D (i_zone ?root) =
      [entry_bytes 0 ''foo'' @ entry_bytes 5 ''foo'' @ replicate 992 0]"
    using b3 by (simp add: dir_blocks_def)
  have w: "\<forall>bd \<in> set (dir_blocks image_D (i_zone ?root)). whole_block 14 bd"
    unfolding d by (simp add: whole_block_14 length_entry_bytes)
  have e: "dir_entries image_D 14 (i_zone ?root) =
      (0, utf8 ''foo'') # (5, utf8 ''foo'') # replicate 62 (0, [])"
    unfolding dir_entries_def d
    by (simp add: block_entries_two length_entry_bytes entry_bytes_foo)
  have v: "\<forall>e \<in> set (dir_entries image_D 14 (i_zone ?root)). utf8_valid (snd e)"
    unfolding e by (auto simp: utf8_def)
  have "list_zones image_D 14 (i_zone ?root) [] =
      Inr ([] @ map snd (filter (\<lambda>e. fst e \<noteq> 0) (dir_entries image_D 14 (i_zone ?root))))"
    using w by (rule list_zones_eq)
  then have l: "read_root_directory_entries image_D (sb_example 32 4) 14 = Inr [utf8 ''foo'']"
    using r unfolding e by (simp add: read_root_directory_entries_def)
  have "find_in_zones image_D 14 (utf8 ''foo'') (i_zone ?root) =
      Inr (map_option fst (find (\<lambda>e. snd e = utf8 ''foo'')
             (dir_entries image_D 14 (i_zone ?root))))"
    using w v by (rule find_in_zones_eq)
  then have "find_inode_of_directory image_D (sb_example 32 4) (utf8 ''foo'') 14 1 = Inr (Some 0)"
    using r unfolding e by (simp add: find_inode_of_directory_def)
  with l show ?thesis by simp
qed

section \<open>The search for a free inode\<close>

lemma find_free_inode_Some:
  "find_free_inode f sb ns = Inr (Some n) \<Longrightarrow>
   n \<in> set ns \<and> (\<exists>ino. parse_inode f sb n = Inr ino \<and> i_nlinks ino = 0) \<and>
   (\<forall>m \<in> set (takeWhile (\<lambda>m. m \<noteq> n) ns).
      \<exists>ino. parse_inode f sb m = Inr ino \<and> i_nlinks ino \<noteq> 0)"
proof (induction ns)
  case Nil
  then show ?case by simp
next
  case (Cons a ns)
  then show ?case
    by (cases "parse_inode f sb a") (auto split: if_splits)
qed

lemma find_free_inode_None:
  "\<forall>m \<in> set ns. \<exists>ino. parse_inode f sb m = Inr ino \<and> i_nlinks ino \<noteq> 0 \<Longrightarrow>
   find_free_inode f sb ns = Inr None"
  by (induction ns) auto

lemma find_free_inode_first:
  "parse_inode f sb k = Inr ino \<Longrightarrow> i_nlinks ino = 0 \<Longrightarrow>
   \<forall>m \<in> set ns. \<exists>ino. parse_inode f sb m = Inr ino \<and> i_nlinks ino \<noteq> 0 \<Longrightarrow>
   find_free_inode f sb (ns @ k # ms) = Inr (Some k)"
  by (induction ns) auto

lemma upt_split: "a \<le> n \<Longrightarrow> n < b \<Longrightarrow> [a ..< b] = [a ..< n] @ n # [Suc n ..< b]"
proof -
  assume a: "a \<le> n" "n < b"
  then have "[a ..< n + (b - n)] = [a ..< n] @ [n ..< n + (b - n)]"
    by (intro upt_add_eq_append)
  with a show ?thesis
    by (simp add: upt_conv_Cons)
qed

lemma takeWhile_upt: "a \<le> n \<Longrightarrow> n < b \<Longrightarrow> takeWhile (\<lambda>m. m \<noteq> n) [a ..< b] = [a ..< n]"
proof -
  assume a: "a \<le> n" "n < b"
  then have "[a ..< b] = [a ..< n] @ n # [Suc n ..< b]"
    by (rule upt_split)
  moreover have "takeWhile (\<lambda>m. m \<noteq> n) ([a ..< n] @ n # [Suc n ..< b]) = [a ..< n]"
    by (subst takeWhile_append2) auto
  ultimately show ?thesis
    by simp
qed

lemma create_new_file_no_free_inodes:
  assumes "sb ''num_inodes'' = Some N" and "parse_inode f sb 1 = Inr root"
    and "\<forall>m. 1 \<le> m \<and> m \<le> N \<longrightarrow> (\<exists>ino. parse_inode f sb m = Inr ino \<and> i_nlinks ino \<noteq> 0)"
  shows "create_new_file f sb filename mfl now = (f, Printed NoFreeInodes)"
proof -
  have "find_free_inode f sb [1 ..< N + 1] = Inr None"
    by (rule find_free_inode_None) (use assms(3) in auto)
  then show ?thesis
    using assms(1,2) by (simp add: create_new_file_def sb_get_def)
qed


text \<open>
  C7. The search for a free inode goes through the inode numbers 1 to \<open>num_inodes\<close> in
  ascending order and stops at the first whose \<open>nlinks\<close> is 0: a number it returns is in
  range, has \<open>nlinks = 0\<close>, and every smaller number has \<open>nlinks \<noteq> 0\<close>; the first free
  number is the one returned. On an image where every inode has \<open>nlinks \<noteq> 0\<close>,
  \<open>create_new_file\<close> prints the message about no free inodes and the image is unchanged.
\<close>

theorem C7_free_inode_search:
  "(find_free_inode f sb [1 ..< N + 1] = Inr (Some n) \<longrightarrow>
      1 \<le> n \<and> n \<le> N \<and> (\<exists>ino. parse_inode f sb n = Inr ino \<and> i_nlinks ino = 0) \<and>
      (\<forall>m. 1 \<le> m \<and> m < n \<longrightarrow> (\<exists>ino. parse_inode f sb m = Inr ino \<and> i_nlinks ino \<noteq> 0))) \<and>
   (1 \<le> k \<and> k \<le> N \<and> (\<exists>ino. parse_inode f sb k = Inr ino \<and> i_nlinks ino = 0) \<and>
    (\<forall>m. 1 \<le> m \<and> m < k \<longrightarrow> (\<exists>ino. parse_inode f sb m = Inr ino \<and> i_nlinks ino \<noteq> 0)) \<longrightarrow>
      find_free_inode f sb [1 ..< N + 1] = Inr (Some k)) \<and>
   (sb ''num_inodes'' = Some N \<and> parse_inode f sb 1 = Inr root \<and>
    (\<forall>m. 1 \<le> m \<and> m \<le> N \<longrightarrow> (\<exists>ino. parse_inode f sb m = Inr ino \<and> i_nlinks ino \<noteq> 0)) \<longrightarrow>
      create_new_file f sb filename mfl now = (f, Printed NoFreeInodes))"
proof (intro conjI impI)
  assume a: "find_free_inode f sb [1 ..< N + 1] = Inr (Some n)"
  from find_free_inode_Some [OF a]
  have r: "1 \<le> n" "n \<le> N" and z: "\<exists>ino. parse_inode f sb n = Inr ino \<and> i_nlinks ino = 0"
    and u: "\<forall>m \<in> set (takeWhile (\<lambda>m. m \<noteq> n) [1 ..< N + 1]).
      \<exists>ino. parse_inode f sb m = Inr ino \<and> i_nlinks ino \<noteq> 0"
    by auto
  show "1 \<le> n" "n \<le> N" "\<exists>ino. parse_inode f sb n = Inr ino \<and> i_nlinks ino = 0"
    by (fact r z)+
  have "takeWhile (\<lambda>m. m \<noteq> n) [1 ..< N + 1] = [1 ..< n]"
    using r by (intro takeWhile_upt) auto
  with u show "\<forall>m. 1 \<le> m \<and> m < n \<longrightarrow>
      (\<exists>ino. parse_inode f sb m = Inr ino \<and> i_nlinks ino \<noteq> 0)"
    by auto
next
  assume a: "1 \<le> k \<and> k \<le> N \<and> (\<exists>ino. parse_inode f sb k = Inr ino \<and> i_nlinks ino = 0) \<and>
    (\<forall>m. 1 \<le> m \<and> m < k \<longrightarrow> (\<exists>ino. parse_inode f sb m = Inr ino \<and> i_nlinks ino \<noteq> 0))"
  then obtain ino where i: "parse_inode f sb k = Inr ino" "i_nlinks ino = 0"
    by blast
  from a have "[1 ..< N + 1] = [1 ..< k] @ k # [Suc k ..< N + 1]"
    by (intro upt_split) auto
  moreover have "find_free_inode f sb ([1 ..< k] @ k # [Suc k ..< N + 1]) = Inr (Some k)"
    using i by (rule find_free_inode_first) (use a in auto)
  ultimately show "find_free_inode f sb [1 ..< N + 1] = Inr (Some k)"
    by simp
next
  assume "sb ''num_inodes'' = Some N \<and> parse_inode f sb 1 = Inr root \<and>
    (\<forall>m. 1 \<le> m \<and> m \<le> N \<longrightarrow> (\<exists>ino. parse_inode f sb m = Inr ino \<and> i_nlinks ino \<noteq> 0))"
  then show "create_new_file f sb filename mfl now = (f, Printed NoFreeInodes)"
    using create_new_file_no_free_inodes by blast
qed


lemma parse_inode_example:
  "1 \<le> n \<Longrightarrow>
   parse_inode f (sb_example a b) n = unpack_inode (file_read f (2048 + (n - 1) * 32) 32)"
  using inode_offset_of_eq [of "sb_example a b" 0 0 n]
  by (simp add: parse_inode_def sb_example_def)

lemma unpack_inode_zeros:
  "unpack_inode (replicate 32 0) =
     Inr \<lparr> i_mode = 0, i_uid = 0, i_size = 0, i_time = 0, i_gid = 0, i_nlinks = 0,
           i_zone = [0, 0, 0, 0, 0, 0, 0, 0, 0] \<rparr>"
  by (simp add: unpack_inode_def upt_rec)

lemma parse_inode_E:
  "parse_inode image_E (sb_example 32 5) 1 =
     Inr \<lparr> i_mode = 0x41ED, i_uid = 0, i_size = 64, i_time = 0, i_gid = 0, i_nlinks = 2,
           i_zone = [3, 4, 0, 0, 0, 0, 0, 0, 0] \<rparr>"
  "parse_inode image_E (sb_example 32 5) 2 =
     Inr \<lparr> i_mode = 0, i_uid = 0, i_size = 0, i_time = 0, i_gid = 0, i_nlinks = 0,
           i_zone = [0, 0, 0, 0, 0, 0, 0, 0, 0] \<rparr>"
proof -
  have "file_read image_E 2048 32 = dir_inode_bytes 3 4 0"
    by (simp add: image_E_def file_read_def sb_bytes_def dir_inode_bytes_def)
  then show "parse_inode image_E (sb_example 32 5) 1 =
     Inr \<lparr> i_mode = 0x41ED, i_uid = 0, i_size = 64, i_time = 0, i_gid = 0, i_nlinks = 2,
           i_zone = [3, 4, 0, 0, 0, 0, 0, 0, 0] \<rparr>"
    using parse_root_example [of image_E 3 4 0 32 5] by simp
  have "file_read image_E (2048 + (2 - 1) * 32) 32 = replicate 32 0"
    by (simp add: image_E_def file_read_def sb_bytes_def dir_inode_bytes_def)
  then show "parse_inode image_E (sb_example 32 5) 2 =
     Inr \<lparr> i_mode = 0, i_uid = 0, i_size = 0, i_time = 0, i_gid = 0, i_nlinks = 0,
           i_zone = [0, 0, 0, 0, 0, 0, 0, 0, 0] \<rparr>"
    using parse_inode_example [of 2 image_E 32 5] by (simp add: unpack_inode_zeros)
qed

lemma parse_inode_F:
  "parse_inode image_F (sb_example 2 4) 1 =
     Inr \<lparr> i_mode = 0x41ED, i_uid = 0, i_size = 64, i_time = 0, i_gid = 0, i_nlinks = 2,
           i_zone = [3, 0, 0, 0, 0, 0, 0, 0, 0] \<rparr>"
  "parse_inode image_F (sb_example 2 4) 2 =
     Inr \<lparr> i_mode = 0x41ED, i_uid = 0, i_size = 64, i_time = 0, i_gid = 0, i_nlinks = 2,
           i_zone = [0, 0, 0, 0, 0, 0, 0, 0, 0] \<rparr>"
proof -
  have "file_read image_F 2048 32 = dir_inode_bytes 3 0 0"
    by (simp add: image_F_def file_read_def sb_bytes_def dir_inode_bytes_def)
  then show "parse_inode image_F (sb_example 2 4) 1 =
     Inr \<lparr> i_mode = 0x41ED, i_uid = 0, i_size = 64, i_time = 0, i_gid = 0, i_nlinks = 2,
           i_zone = [3, 0, 0, 0, 0, 0, 0, 0, 0] \<rparr>"
    using parse_root_example [of image_F 3 0 0 2 4] by simp
  have "file_read image_F (2048 + (2 - 1) * 32) 32 = dir_inode_bytes 0 0 0"
    by (simp add: image_F_def file_read_def sb_bytes_def dir_inode_bytes_def)
  then show "parse_inode image_F (sb_example 2 4) 2 =
     Inr \<lparr> i_mode = 0x41ED, i_uid = 0, i_size = 64, i_time = 0, i_gid = 0, i_nlinks = 2,
           i_zone = [0, 0, 0, 0, 0, 0, 0, 0, 0] \<rparr>"
    using parse_inode_example [of 2 image_F 2 4] unpack_dir_inode_bytes [of 0 0 0] by simp
qed

theorem C7_free_inode_search_witness:
  "find_free_inode image_E (sb_example 32 5) [1 ..< 32 + 1] = Inr (Some 2) \<and>
   (\<exists>ino. parse_inode image_E (sb_example 32 5) 2 = Inr ino \<and> i_nlinks ino = 0) \<and>
   create_new_file image_F (sb_example 2 4) (utf8 ''new'') 14 1700000000 =
     (image_F, Printed NoFreeInodes)"
proof -
  have one: "\<exists>ino. parse_inode image_E (sb_example 32 5) m = Inr ino \<and> i_nlinks ino \<noteq> 0"
    if "1 \<le> m \<and> m < 2" for m
  proof -
    from that have "m = 1" by simp
    then show ?thesis using parse_inode_E(1) by simp
  qed
  have h2: "1 \<le> (2::nat) \<and> (2::nat) \<le> 32 \<and>
      (\<exists>ino. parse_inode image_E (sb_example 32 5) 2 = Inr ino \<and> i_nlinks ino = 0) \<and>
      (\<forall>m. 1 \<le> m \<and> m < 2 \<longrightarrow>
         (\<exists>ino. parse_inode image_E (sb_example 32 5) m = Inr ino \<and> i_nlinks ino \<noteq> 0))"
    using parse_inode_E(2) one by simp
  have a: "find_free_inode image_E (sb_example 32 5) [1 ..< 32 + 1] = Inr (Some 2)"
    using C7_free_inode_search [of image_E "sb_example 32 5" 32 2 2] h2 by blast
  have b: "\<exists>ino. parse_inode image_E (sb_example 32 5) 2 = Inr ino \<and> i_nlinks ino = 0"
    using C7_free_inode_search [of image_E "sb_example 32 5" 32 2 2] a by blast
  have two: "\<exists>ino. parse_inode image_F (sb_example 2 4) m = Inr ino \<and> i_nlinks ino \<noteq> 0"
    if "1 \<le> m \<and> m \<le> 2" for m
  proof -
    from that have "m = 1 \<or> m = 2" by auto
    then show ?thesis using parse_inode_F by auto
  qed
  have h3: "sb_example 2 4 ''num_inodes'' = Some 2 \<and>
      parse_inode image_F (sb_example 2 4) 1 =
        Inr \<lparr> i_mode = 0x41ED, i_uid = 0, i_size = 64, i_time = 0, i_gid = 0, i_nlinks = 2,
              i_zone = [3, 0, 0, 0, 0, 0, 0, 0, 0] \<rparr> \<and>
      (\<forall>m. 1 \<le> m \<and> m \<le> 2 \<longrightarrow>
         (\<exists>ino. parse_inode image_F (sb_example 2 4) m = Inr ino \<and> i_nlinks ino \<noteq> 0))"
    using parse_inode_F(1) two by (simp add: sb_example_def)
  have c: "create_new_file image_F (sb_example 2 4) (utf8 ''new'') 14 1700000000 =
      (image_F, Printed NoFreeInodes)"
    using C7_free_inode_search [of image_F "sb_example 2 4" 2 _ _ _ "utf8 ''new''" 14 1700000000]
      h3 by blast
  from a b c show ?thesis by blast
qed

section \<open>The search for a free directory entry\<close>

lemma file_read_write_after:
  "pos + length bs \<le> q \<Longrightarrow> pos + length bs \<le> length f \<Longrightarrow>
   file_read (file_write f pos bs) q n = file_read f q n"
  by (simp add: file_read_def file_write_def)

lemma file_read_write_before:
  "q + n \<le> pos \<Longrightarrow> pos \<le> length f \<Longrightarrow>
   file_read (file_write f pos bs) q n = file_read f q n"
proof -
  assume a: "q + n \<le> pos" "pos \<le> length f"
  then have "take n (drop q (take pos f @ rest)) = take n (drop q (take pos f))" for rest
    by simp
  moreover have "take n (drop q (take pos f)) = take n (drop q f)"
    using a by (simp add: drop_take min_def)
  ultimately show ?thesis
    by (simp only: file_read_def file_write_def)
qed

lemma utf8_valid_append: "utf8_valid xs \<Longrightarrow> utf8_valid ys \<Longrightarrow> utf8_valid (xs @ ys)"
proof (induction xs rule: utf8_valid.induct)
  case 1
  then show ?case by simp
next
  case (2 b bs)
  consider (a) "b < 0x80"
    | (b) "\<not> b < 0x80" "0xC2 \<le> b \<and> b \<le> 0xDF"
    | (c) "\<not> b < 0x80" "\<not> (0xC2 \<le> b \<and> b \<le> 0xDF)" "0xE0 \<le> b \<and> b \<le> 0xEF"
    | (d) "\<not> b < 0x80" "\<not> (0xC2 \<le> b \<and> b \<le> 0xDF)" "\<not> (0xE0 \<le> b \<and> b \<le> 0xEF)"
        "0xF0 \<le> b \<and> b \<le> 0xF4"
    | (e) "\<not> b < 0x80" "\<not> (0xC2 \<le> b \<and> b \<le> 0xDF)" "\<not> (0xE0 \<le> b \<and> b \<le> 0xEF)"
        "\<not> (0xF0 \<le> b \<and> b \<le> 0xF4)"
    by blast
  then show ?case
  proof cases
    case a
    with 2 show ?thesis by (simp del: de_Morgan_conj)
  next
    case b
    with 2 show ?thesis by (cases bs) (simp_all del: de_Morgan_conj)
  next
    case c
    show ?thesis
    proof (cases bs)
      case Nil
      with c 2 show ?thesis by (simp del: de_Morgan_conj)
    next
      case (Cons b1 r1)
      show ?thesis
      proof (cases r1)
        case Nil
        with c Cons 2 show ?thesis by (simp del: de_Morgan_conj)
      next
        case (Cons b2 r2)
        with c \<open>bs = b1 # r1\<close> 2 show ?thesis by (simp del: de_Morgan_conj)
      qed
    qed
  next
    case d
    show ?thesis
    proof (cases bs)
      case Nil
      with d 2 show ?thesis by (simp del: de_Morgan_conj)
    next
      case (Cons b1 r1)
      show ?thesis
      proof (cases r1)
        case Nil
        with d Cons 2 show ?thesis by (simp del: de_Morgan_conj)
      next
        case (Cons b2 r2)
        show ?thesis
        proof (cases r2)
          case Nil
          with d \<open>bs = b1 # r1\<close> \<open>r1 = b2 # r2\<close> 2 show ?thesis by (simp del: de_Morgan_conj)
        next
          case (Cons b3 r3)
          with d \<open>bs = b1 # r1\<close> \<open>r1 = b2 # r2\<close> 2 show ?thesis by (simp del: de_Morgan_conj)
        qed
      qed
    qed
  next
    case e
    with 2 show ?thesis by (simp del: de_Morgan_conj)
  qed
qed

lemma utf8_valid_zeros: "utf8_valid (replicate k 0)"
  by (induction k) auto

lemma encode_str_ljust:
  "utf8_valid name \<Longrightarrow> encode (str_ljust name w) = Inr (str_ljust name w)"
  by (simp add: encode_def str_ljust_def utf8_valid_append utf8_valid_zeros)

lemma add_root_entry_full:
  assumes "i_zone root \<noteq> []"
    and "whole_block mfl (file_read f (i_zone root ! 0 * 1024) 1024)"
    and "find (\<lambda>off. entry_ino mfl (file_read f (i_zone root ! 0 * 1024) 1024) off = 0)
           (entry_offsets mfl) = None"
  shows "add_root_entry f root n name mfl = (f, Printed NoFreeDirectoryEntry)"
proof -
  have "find_free_entry mfl (file_read f (i_zone root ! 0 * 1024) 1024) (entry_offsets mfl) =
      Inr None"
    using assms(2,3) by (simp add: find_free_entry_eq whole_block_def)
  then show ?thesis
    using assms(1) by (simp add: add_root_entry_def zone_at_def)
qed

lemma add_root_entry_free:
  assumes "i_zone root \<noteq> []"
    and "whole_block mfl (file_read f (i_zone root ! 0 * 1024) 1024)"
    and "find (\<lambda>off. entry_ino mfl (file_read f (i_zone root ! 0 * 1024) 1024) off = 0)
           (entry_offsets mfl) = Some off"
    and "utf8_valid name" and "fits 2 n"
  shows "add_root_entry f root n name mfl =
     (file_write f (i_zone root ! 0 * 1024 + off)
        (nat_le 2 n @ take mfl (str_ljust name mfl) @
         replicate (mfl - length (str_ljust name mfl)) 0),
      Returned ())"
proof -
  have "find_free_entry mfl (file_read f (i_zone root ! 0 * 1024) 1024) (entry_offsets mfl) =
      Inr (Some off)"
    using assms(2,3) by (simp add: find_free_entry_eq whole_block_def)
  then show ?thesis
    using assms(1,4,5)
    by (simp add: add_root_entry_def zone_at_def encode_str_ljust pack_entry_def)
qed


lemma entry_ino_ones:
  assumes "off \<in> set (entry_offsets 14)"
  shows "entry_ino 14 (replicate 1024 1) off = 257"
proof -
  from assms obtain i where "off = i * 16" "i < 64"
    by (auto simp: entry_offsets_14)
  then have "entry_slice 14 (replicate 1024 1) off = replicate (entry_size 14) 1"
    by (intro entry_slice_replicate) (simp add: entry_size_def)
  then show ?thesis
    by (simp add: entry_ino_def entry_size_def numeral_2_eq_2)
qed

lemma find_free_inode_E:
  "find_free_inode image_E (sb_example 32 5) [1 ..< 32 + 1] = Inr (Some 2)"
proof -
  have "[1 ..< 32 + 1] = [1 ..< 2] @ 2 # [Suc 2 ..< 32 + 1]"
    by (rule upt_split) simp_all
  moreover have "[1 ..< 2] = [1::nat]"
    by (simp add: upt_conv_Cons)
  moreover have "find_free_inode image_E (sb_example 32 5) ([1] @ 2 # [Suc 2 ..< 32 + 1]) =
      Inr (Some 2)"
    by (rule find_free_inode_first [OF parse_inode_E(2)]) (use parse_inode_E(1) in auto)
  ultimately show ?thesis by simp
qed

lemma pack_new_file_inode:
  "pack_inode (new_file_inode 1700000000) =
     Inr [0xC0, 0x81, 0, 0, 0, 0, 0, 0, 0x00, 0xF1, 0x53, 0x65, 0, 1,
          0, 0, 0, 0, 0, 0, 0, 0, 0, 0, 0, 0, 0, 0, 0, 0, 0, 0]"
  by (simp add: pack_inode_def new_file_inode_def fits_def nat_le_1 nat_le_2 nat_le_4
      replicate_9)

lemma length_image_E: "length image_E = 5120"
  by (simp add: image_E_def sb_bytes_def dir_inode_bytes_def)

text \<open>
  C5, as the specification states it: the search for a free directory slot scans all allocated
  zones of the directory, and only the exhaustion of every allocated zone is the
  directory-full condition. On \<open>image_E\<close> the second zone of the root directory has a
  free entry at offset 0, and \<open>create_new_file\<close> reports that no directory entry is free.
\<close>

theorem C5_directory_full_counterexample:
  "parse_inode image_E (sb_example 32 5) 1 =
     Inr \<lparr> i_mode = 0x41ED, i_uid = 0, i_size = 64, i_time = 0, i_gid = 0, i_nlinks = 2,
           i_zone = [3, 4, 0, 0, 0, 0, 0, 0, 0] \<rparr> \<and>
   spec_free_directory_slot image_E 14 [3, 4, 0, 0, 0, 0, 0, 0, 0] = Some (4, 0) \<and>
   snd (create_new_file image_E (sb_example 32 5) (utf8 ''new'') 14 1700000000) =
     Printed NoFreeDirectoryEntry"
proof -
  let ?root = "\<lparr> i_mode = 0x41ED, i_uid = 0, i_size = 64, i_time = 0, i_gid = 0, i_nlinks = 2,
           i_zone = [3, 4, 0, 0, 0, 0, 0, 0, 0] \<rparr>"
  let ?X = "[0xC0, 0x81, 0, 0, 0, 0, 0, 0, 0x00, 0xF1, 0x53, 0x65, 0, 1,
          0, 0, 0, 0, 0, 0, 0, 0, 0, 0, 0, 0, 0, 0, 0, 0, 0, 0] :: byte list"
  have b3: "file_read image_E (3 * 1024) 1024 = replicate 1024 1"
    by (simp add: image_E_def file_read_def sb_bytes_def dir_inode_bytes_def)
  have b4: "file_read image_E (4 * 1024) 1024 = replicate 1024 0"
    by (simp add: image_E_def file_read_def sb_bytes_def dir_inode_bytes_def)
  have full: "find (\<lambda>off. entry_ino 14 (replicate 1024 1) off = 0) (entry_offsets 14) = None"
    by (simp add: find_None_iff entry_ino_ones)
  have o: "entry_offsets 14 = 0 # tl (entry_offsets 14)"
    by (simp add: entry_offsets_14 upt_conv_Cons)
  have z: "entry_ino 14 (replicate 1024 0) 0 = 0"
    by (simp add: entry_ino_def entry_slice_replicate entry_size_def)
  have "find (\<lambda>(z, off). entry_ino 14 (file_read image_E (z * 1024) 1024) off = 0)
          (map (Pair 3) (entry_offsets 14)) = None"
    using b3 by (simp add: find_None_iff entry_ino_ones)
  moreover have "find (\<lambda>(z, off). entry_ino 14 (file_read image_E (z * 1024) 1024) off = 0)
          (map (Pair 4) (entry_offsets 14)) = Some (4, 0)"
    using b4 z by (subst o) simp
  ultimately have s: "spec_free_directory_slot image_E 14 [3, 4, 0, 0, 0, 0, 0, 0, 0] = Some (4, 0)"
    by (simp add: spec_free_directory_slot_def find_append_eq)
  let ?f1 = "file_write image_E 2080 ?X"
  have "file_read ?f1 (3 * 1024) 1024 = file_read image_E (3 * 1024) 1024"
    by (rule file_read_write_after) (simp_all add: length_image_E)
  with b3 have r: "file_read ?f1 3072 1024 = replicate 1024 1"
    by simp
  have "add_root_entry ?f1 ?root 2 (utf8 ''new'') 14 = (?f1, Printed NoFreeDirectoryEntry)"
    by (rule add_root_entry_full) (simp_all add: r whole_block_14 full)
  then have "create_new_file image_E (sb_example 32 5) (utf8 ''new'') 14 1700000000 =
      (?f1, Printed NoFreeDirectoryEntry)"
    using parse_inode_E(1) find_free_inode_E pack_new_file_inode
      inode_offset_of_eq [of "sb_example 32 5" 0 0 2]
    by (simp add: create_new_file_def sb_get_def sb_example_def)
  with s parse_inode_E(1) show ?thesis by simp
qed

text \<open>
  C5, amended. The search for a free slot in the root directory, in \<open>create_new_file\<close>
  and in \<open>create_new_directory\<close>, scans only the block named by the first zone slot of
  the root inode, in in-block order, and takes the first entry whose inode number is 0;
  the new entry is written there. When that one block has no such entry the directory
  counts as full, whatever the other zones hold, and the image is left as it is: no
  zone is allocated to grow the directory.
\<close>

theorem C5_free_slot_in_first_zone:
  assumes "i_zone root \<noteq> []"
    and "whole_block mfl (file_read f (i_zone root ! 0 * 1024) 1024)"
  shows
    "(find (\<lambda>off. entry_ino mfl (file_read f (i_zone root ! 0 * 1024) 1024) off = 0)
        (entry_offsets mfl) = None \<longrightarrow>
      add_root_entry f root n name mfl = (f, Printed NoFreeDirectoryEntry)) \<and>
     (\<forall>off. find (\<lambda>off. entry_ino mfl (file_read f (i_zone root ! 0 * 1024) 1024) off = 0)
        (entry_offsets mfl) = Some off \<and> utf8_valid name \<and> fits 2 n \<longrightarrow>
      add_root_entry f root n name mfl =
        (file_write f (i_zone root ! 0 * 1024 + off)
           (nat_le 2 n @ take mfl (str_ljust name mfl) @
            replicate (mfl - length (str_ljust name mfl)) 0),
         Returned ()))"
  using add_root_entry_full [OF assms] add_root_entry_free [OF assms] by blast


theorem C5_free_slot_in_first_zone_witness:
  "add_root_entry image_E
     \<lparr> i_mode = 0x41ED, i_uid = 0, i_size = 64, i_time = 0, i_gid = 0, i_nlinks = 2,
       i_zone = [3, 4, 0, 0, 0, 0, 0, 0, 0] \<rparr> 2 (utf8 ''new'') 14 =
     (image_E, Printed NoFreeDirectoryEntry) \<and>
   add_root_entry image_A
     \<lparr> i_mode = 0x41ED, i_uid = 0, i_size = 64, i_time = 0, i_gid = 0, i_nlinks = 2,
       i_zone = [3, 0, 0, 0, 0, 0, 0, 0, 0] \<rparr> 2 (utf8 ''new'') 14 =
     (file_write image_A (3072 + 16) (entry_bytes 2 ''new''), Returned ())"
proof -
  let ?rE = "\<lparr> i_mode = 0x41ED, i_uid = 0, i_size = 64, i_time = 0, i_gid = 0, i_nlinks = 2,
       i_zone = [3, 4, 0, 0, 0, 0, 0, 0, 0] \<rparr>"
  let ?rA = "\<lparr> i_mode = 0x41ED, i_uid = 0, i_size = 64, i_time = 0, i_gid = 0, i_nlinks = 2,
       i_zone = [3, 0, 0, 0, 0, 0, 0, 0, 0] \<rparr>"
  have bE: "file_read image_E (i_zone ?rE ! 0 * 1024) 1024 = replicate 1024 1"
    by (simp add: image_E_def file_read_def sb_bytes_def dir_inode_bytes_def)
  have nE: "i_zone ?rE \<noteq> []" by simp
  have wE: "whole_block 14 (file_read image_E (i_zone ?rE ! 0 * 1024) 1024)"
    unfolding bE by (simp add: whole_block_14)
  have fE: "find (\<lambda>off. entry_ino 14 (file_read image_E (i_zone ?rE ! 0 * 1024) 1024) off = 0)
      (entry_offsets 14) = None"
    unfolding bE by (simp add: find_None_iff entry_ino_ones)
  have e: "add_root_entry image_E ?rE 2 (utf8 ''new'') 14 = (image_E, Printed NoFreeDirectoryEntry)"
    using C5_free_slot_in_first_zone [OF nE wE, of 2 "utf8 ''new''"] fE by blast
  have bA: "file_read image_A (i_zone ?rA ! 0 * 1024) 1024 =
      entry_bytes 5 ''foo'' @ replicate 1008 0"
    by (simp add: image_A_def file_read_def sb_bytes_def dir_inode_bytes_def entry_bytes_def
        utf8_def)
  have nA: "i_zone ?rA \<noteq> []" by simp
  have wA: "whole_block 14 (file_read image_A (i_zone ?rA ! 0 * 1024) 1024)"
    unfolding bA by (simp add: whole_block_14 length_entry_bytes)
  have o: "entry_offsets 14 = 0 # 16 # tl (tl (entry_offsets 14))"
    by (simp add: entry_offsets_14 upt_conv_Cons)
  have i0: "entry_ino 14 (entry_bytes 5 ''foo'' @ replicate 1008 0) 0 = 5"
    by (simp add: entry_ino_def entry_slice_def entry_size_def entry_bytes_def utf8_def)
  have "16 \<in> set (tl (entry_offsets 14))"
    by (subst o) simp
  then have i1: "entry_ino 14 (entry_bytes 5 ''foo'' @ replicate 1008 0) 16 = 0"
    by (intro entry_ino_zero_tail) (simp_all add: length_entry_bytes)
  have fA: "find (\<lambda>off. entry_ino 14 (file_read image_A (i_zone ?rA ! 0 * 1024) 1024) off = 0)
      (entry_offsets 14) = Some 16"
    unfolding bA by (subst o) (simp add: i0 i1)
  have v: "utf8_valid (utf8 ''new'')" "fits 2 2"
    by (simp_all add: utf8_def fits_def)
  have b: "nat_le 2 2 @ take 14 (str_ljust (utf8 ''new'') 14) @
      replicate (14 - length (str_ljust (utf8 ''new'') 14)) 0 = entry_bytes 2 ''new''"
    by (simp add: nat_le_2 str_ljust_def seq_len_def lead_len_def utf8_def entry_bytes_def)
  have "add_root_entry image_A ?rA 2 (utf8 ''new'') 14 =
      (file_write image_A (i_zone ?rA ! 0 * 1024 + 16)
         (nat_le 2 2 @ take 14 (str_ljust (utf8 ''new'') 14) @
          replicate (14 - length (str_ljust (utf8 ''new'') 14)) 0), Returned ())"
    using C5_free_slot_in_first_zone [OF nA wA, of 2 "utf8 ''new''"] fA v by blast
  then have a: "add_root_entry image_A ?rA 2 (utf8 ''new'') 14 =
      (file_write image_A (3072 + 16) (entry_bytes 2 ''new''), Returned ())"
    unfolding b by simp
  from e a show ?thesis by blast
qed

section \<open>Creating a directory\<close>

lemma parse_fields_other:
  "parse_fields d idx fs sb0 = Inr sb \<Longrightarrow> k \<notin> fst ` set fs \<Longrightarrow> sb k = sb0 k"
proof (induction fs arbitrary: idx sb0)
  case Nil
  then show ?case by simp
next
  case (Cons a fs)
  obtain name fsize where a: "a = (name, fsize)" by (cases a)
  from Cons.prems a have
    p: "parse_fields d (idx + fsize) fs (sb0(name \<mapsto> le_nat (take fsize (drop idx d)))) = Inr sb"
    and n: "k \<noteq> name" and r: "k \<notin> fst ` set fs"
    by (auto split: if_splits)
  from Cons.IH [OF p r] n show ?case by simp
qed

lemma parse_superblock_no_nzones: "parse_superblock d = Inr sb \<Longrightarrow> sb ''nzones'' = None"
  using parse_fields_other [of d 0 sb_fields Map.empty sb "''nzones''"]
  by (simp add: parse_superblock_def sb_fields_def)

lemma add_dir_block_no_nzones:
  "sb ''nzones'' = None \<Longrightarrow> snd (add_dir_block f sb off n mfl) \<noteq> Returned ()"
  by (simp add: add_dir_block_def sb_get_def split: sum.splits option.splits)

lemma create_new_directory_never_returns:
  assumes "parse_superblock d = Inr sb"
  shows "snd (create_new_directory f sb dirname mfl now) \<noteq> Returned ()"
proof -
  have n: "sb ''nzones'' = None"
    using assms by (rule parse_superblock_no_nzones)
  have a: "snd (add_dir_block g sb off k mfl) \<noteq> Returned ()" for g off k
    using n by (rule add_dir_block_no_nzones)
  show ?thesis
    unfolding create_new_directory_def
    by (auto simp: a split: sum.splits option.splits prod.splits outcome.splits)
qed


lemma length_file_write:
  "pos + length bs \<le> length f \<Longrightarrow> length (file_write f pos bs) = length f"
  by (simp add: file_write_def)

lemma pack_new_dir_inode:
  "pack_inode (new_dir_inode 1700000000) = Inr new_dir_inode_bytes"
  by (simp add: pack_inode_def new_dir_inode_def new_dir_inode_bytes_def fits_def
      nat_le_1 nat_le_2 nat_le_4 replicate_9)

lemma length_image_C: "length image_C = 5120"
  by (simp add: image_C_def sb_bytes_def)

lemma read_superblock_C: "read_superblock image_C = Inr (sb_example 32 5)"
proof -
  have "file_read image_C 1024 1024 = sb_bytes 32 5 @ replicate 1004 0"
    by (simp add: image_C_def file_read_def sb_bytes_def)
  then show ?thesis
    by (simp add: read_superblock_def parse_superblock_sb_bytes)
qed

lemma parse_inode_C:
  "parse_inode image_C (sb_example 32 5) 1 =
     Inr \<lparr> i_mode = 0, i_uid = 0, i_size = 0, i_time = 0, i_gid = 0, i_nlinks = 0,
           i_zone = [3, 0, 0, 0, 0, 0, 0, 0, 0] \<rparr>"
proof -
  have "file_read image_C (2048 + (1 - 1) * 32) 32 = replicate 14 0 @ [3, 0] @ replicate 16 0"
    by (simp add: image_C_def file_read_def sb_bytes_def)
  moreover have "unpack_inode (replicate 14 0 @ [3, 0] @ replicate 16 0) =
     Inr \<lparr> i_mode = 0, i_uid = 0, i_size = 0, i_time = 0, i_gid = 0, i_nlinks = 0,
           i_zone = [3, 0, 0, 0, 0, 0, 0, 0, 0] \<rparr>"
    by (simp add: unpack_inode_def upt_rec)
  ultimately show ?thesis
    using parse_inode_example [of 1 image_C 32 5] by simp
qed

lemma create_new_directory_C:
  "create_new_directory image_C (sb_example 32 5) (utf8 ''sub'') 14 1700000000 =
     (image_C_after, Raised KeyError)"
proof -
  let ?root = "\<lparr> i_mode = 0, i_uid = 0, i_size = 0, i_time = 0, i_gid = 0, i_nlinks = 0,
           i_zone = [3, 0, 0, 0, 0, 0, 0, 0, 0] \<rparr>"
  let ?f1 = "file_write image_C 2048 new_dir_inode_bytes"
  have u: "[1 ..< 32 + 1] = 1 # [2 ..< 32 + 1]"
    by (simp add: upt_conv_Cons)
  have fi: "find_free_inode image_C (sb_example 32 5) [1 ..< 32 + 1] = Inr (Some 1)"
    using parse_inode_C by (subst u) simp
  have "file_read ?f1 3072 1024 = file_read image_C 3072 1024"
    by (rule file_read_write_after) (simp_all add: length_image_C new_dir_inode_bytes_def)
  moreover have "file_read image_C 3072 1024 = replicate 1024 0"
    by (simp add: image_C_def file_read_def sb_bytes_def)
  ultimately have b3: "file_read ?f1 3072 1024 = replicate 1024 0"
    by simp
  have o: "entry_offsets 14 = 0 # tl (entry_offsets 14)"
    by (simp add: entry_offsets_14 upt_conv_Cons)
  have z: "entry_ino 14 (replicate 1024 0) 0 = 0"
    by (simp add: entry_ino_def entry_slice_replicate entry_size_def)
  have fe: "find (\<lambda>off. entry_ino 14 (replicate 1024 0) off = 0) (entry_offsets 14) = Some 0"
    by (subst o) (simp add: z)
  have b: "nat_le 2 1 @ take 14 (str_ljust (utf8 ''sub'') 14) @
      replicate (14 - length (str_ljust (utf8 ''sub'') 14)) 0 = entry_bytes 1 ''sub''"
    by (simp add: nat_le_2 str_ljust_def seq_len_def lead_len_def utf8_def entry_bytes_def)
  have "add_root_entry ?f1 ?root 1 (utf8 ''sub'') 14 =
      (file_write ?f1 (i_zone ?root ! 0 * 1024 + 0)
         (nat_le 2 1 @ take 14 (str_ljust (utf8 ''sub'') 14) @
          replicate (14 - length (str_ljust (utf8 ''sub'') 14)) 0), Returned ())"
    by (rule add_root_entry_free) (simp_all add: b3 whole_block_14 fe utf8_def fits_def)
  then have ar: "add_root_entry ?f1 ?root 1 (utf8 ''sub'') 14 = (image_C_after, Returned ())"
    unfolding b by (simp add: image_C_after_def)
  have ad: "add_dir_block image_C_after (sb_example 32 5) 2048 1 14 =
      (image_C_after, Raised KeyError)"
    by (simp add: add_dir_block_def sb_get_def sb_example_def)
  show ?thesis
    using parse_inode_C fi pack_new_dir_inode ar ad
      inode_offset_of_eq [of "sb_example 32 5" 0 0 1]
    by (simp add: create_new_directory_def sb_get_def sb_example_def)
qed

text \<open>
  C1. The specification says that on an image with a fully free inode table and a free data block,
  \<open>create_directory\<close> leaves a new inode with \<open>nlinks = 2\<close> and the size of one block,
  a root entry for the name, and the first direct zone of the new inode set to a block
  that holds the entries \<open>.\<close> and \<open>..\<close>. On \<open>image_C\<close> the command \<open>mkdir sub\<close> writes the
  inode record and the root entry and then ends with \<open>KeyError\<close>: it reads
  \<open>sb_dict["nzones"]\<close>, and the superblock dictionary has the key \<open>"num_zones"\<close>. The
  zone slots of the new inode stay 0 and the free block 4 stays empty.
\<close>

theorem C1_create_directory_raises_KeyError:
  "main_mkdir image_C (utf8 ''sub'') 1700000000 = (image_C_after, Raised KeyError) \<and>
   parse_inode image_C_after (sb_example 32 5) 1 = Inr (new_dir_inode 1700000000) \<and>
   i_nlinks (new_dir_inode 1700000000) = 2 \<and>
   i_size (new_dir_inode 1700000000) = 1024 \<and>
   i_zone (new_dir_inode 1700000000) = [0, 0, 0, 0, 0, 0, 0, 0, 0] \<and>
   file_read image_C_after (3 * 1024) 16 = entry_bytes 1 ''sub'' \<and>
   file_read image_C_after (4 * 1024) 1024 = replicate 1024 0"
proof -
  let ?f1 = "file_write image_C 2048 new_dir_inode_bytes"
  have l1: "length ?f1 = 5120"
    by (simp add: length_file_write length_image_C new_dir_inode_bytes_def)
  have m: "main_mkdir image_C (utf8 ''sub'') 1700000000 = (image_C_after, Raised KeyError)"
    using read_superblock_C create_new_directory_C
    by (simp add: main_mkdir_def max_filename_length_of_eq [of _ "0x137F"] sb_example_def
        seq_len_def lead_len_def utf8_def)
  have "file_read image_C_after (2048 + (1 - 1) * 32) 32 = file_read ?f1 2048 32"
    unfolding image_C_after_def by (simp add: file_read_write_before l1)
  also have "\<dots> = new_dir_inode_bytes"
    by (rule file_read_write_same) (simp add: new_dir_inode_bytes_def)
  finally have p: "parse_inode image_C_after (sb_example 32 5) 1 = Inr (new_dir_inode 1700000000)"
    using parse_inode_example [of 1 image_C_after 32 5]
      unpack_pack_inode [OF pack_new_dir_inode]
    by simp
  have e: "file_read image_C_after (3 * 1024) 16 = entry_bytes 1 ''sub''"
    unfolding image_C_after_def
    by (simp add: file_read_write_same length_entry_bytes)
  have "file_read image_C_after (4 * 1024) 1024 = file_read ?f1 (4 * 1024) 1024"
    unfolding image_C_after_def
    by (rule file_read_write_after) (simp_all add: l1 length_entry_bytes)
  also have "\<dots> = file_read image_C (4 * 1024) 1024"
    by (rule file_read_write_after) (simp_all add: length_image_C new_dir_inode_bytes_def)
  also have "\<dots> = replicate 1024 0"
    by (simp add: image_C_def file_read_def sb_bytes_def)
  finally have b4: "file_read image_C_after (4 * 1024) 1024 = replicate 1024 0" .
  from m p e b4 show ?thesis
    by (simp add: new_dir_inode_def replicate_9)
qed

section \<open>Appending to a file\<close>

lemma append_to_file_raises_TypeError:
  assumes "parse_inode f sb d = Inr dir"
    and "find_in_zones f mfl name (i_zone dir) = Inr (Some i)"
    and "parse_inode f sb i = Inr ino"
  shows "append_to_file f sb d name data mfl now = (f, Raised TypeError)"
  using assms by (simp add: append_to_file_def append_body_def read_file_data_3_def Let_def)

lemma append_body_never_returns: "snd (append_body f sb i data now) \<noteq> Returned ()"
  by (simp add: append_body_def read_file_data_3_def Let_def split: sum.splits)

lemma append_to_file_never_returns:
  "snd (append_to_file f sb d name data mfl now) \<noteq> Returned ()"
  by (simp add: append_to_file_def append_body_never_returns
      split: sum.splits option.splits)

lemma unpack_file_inode_bytes:
  "unpack_inode (file_inode_bytes len z0) =
     Inr \<lparr> i_mode = 0x81C0, i_uid = 0, i_size = unat len, i_time = 0, i_gid = 0, i_nlinks = 1,
           i_zone = [unat z0, 0, 0, 0, 0, 0, 0, 0, 0] \<rparr>"
  by (simp add: unpack_inode_def file_inode_bytes_def upt_rec)

lemma read_superblock_G: "read_superblock image_G = Inr (sb_example 32 6)"
proof -
  have "file_read image_G 1024 1024 = sb_bytes 32 6 @ replicate 1004 0"
    by (simp add: image_G_def file_read_def sb_bytes_def)
  then show ?thesis
    by (simp add: read_superblock_def parse_superblock_sb_bytes)
qed

lemma parse_inode_G:
  "parse_inode image_G (sb_example 32 6) 1 =
     Inr \<lparr> i_mode = 0x41ED, i_uid = 0, i_size = 64, i_time = 0, i_gid = 0, i_nlinks = 2,
           i_zone = [3, 0, 0, 0, 0, 0, 0, 0, 0] \<rparr>"
  "parse_inode image_G (sb_example 32 6) 2 =
     Inr \<lparr> i_mode = 0x41ED, i_uid = 0, i_size = 64, i_time = 0, i_gid = 0, i_nlinks = 2,
           i_zone = [4, 0, 0, 0, 0, 0, 0, 0, 0] \<rparr>"
  "parse_inode image_G (sb_example 32 6) 3 =
     Inr \<lparr> i_mode = 0x81C0, i_uid = 0, i_size = 3, i_time = 0, i_gid = 0, i_nlinks = 1,
           i_zone = [5, 0, 0, 0, 0, 0, 0, 0, 0] \<rparr>"
proof -
  have "file_read image_G (2048 + (1 - 1) * 32) 32 = dir_inode_bytes 3 0 0"
    by (simp add: image_G_def file_read_def sb_bytes_def dir_inode_bytes_def)
  then show "parse_inode image_G (sb_example 32 6) 1 =
     Inr \<lparr> i_mode = 0x41ED, i_uid = 0, i_size = 64, i_time = 0, i_gid = 0, i_nlinks = 2,
           i_zone = [3, 0, 0, 0, 0, 0, 0, 0, 0] \<rparr>"
    using parse_inode_example [of 1 image_G 32 6] unpack_dir_inode_bytes [of 3 0 0] by simp
  have "file_read image_G (2048 + (2 - 1) * 32) 32 = dir_inode_bytes 4 0 0"
    by (simp add: image_G_def file_read_def sb_bytes_def dir_inode_bytes_def)
  then show "parse_inode image_G (sb_example 32 6) 2 =
     Inr \<lparr> i_mode = 0x41ED, i_uid = 0, i_size = 64, i_time = 0, i_gid = 0, i_nlinks = 2,
           i_zone = [4, 0, 0, 0, 0, 0, 0, 0, 0] \<rparr>"
    using parse_inode_example [of 2 image_G 32 6] unpack_dir_inode_bytes [of 4 0 0] by simp
  have "file_read image_G (2048 + (3 - 1) * 32) 32 = file_inode_bytes 3 5"
    by (simp add: image_G_def file_read_def sb_bytes_def dir_inode_bytes_def
        file_inode_bytes_def)
  then show "parse_inode image_G (sb_example 32 6) 3 =
     Inr \<lparr> i_mode = 0x81C0, i_uid = 0, i_size = 3, i_time = 0, i_gid = 0, i_nlinks = 1,
           i_zone = [5, 0, 0, 0, 0, 0, 0, 0, 0] \<rparr>"
    using parse_inode_example [of 3 image_G 32 6] unpack_file_inode_bytes [of 3 5] by simp
qed

lemma find_in_single_entry_block:
  assumes "file_read f (z * 1024) 1024 = entry_bytes i name @ replicate 1008 0"
    and "z \<noteq> 0" and "length name \<le> 14" and "utf8 name \<noteq> []" and "last (utf8 name) \<noteq> 0"
    and "utf8_valid (utf8 name)"
  shows "find_in_zones f 14 (utf8 name) [z, 0, 0, 0, 0, 0, 0, 0, 0] = Inr (Some (unat i))"
proof -
  let ?zs = "[z, 0, 0, 0, 0, 0, 0, 0, 0]"
  have d: "dir_blocks f ?zs = [entry_bytes i name @ replicate 1008 0]"
    using assms(1,2) by (simp add: dir_blocks_def)
  have w: "\<forall>bd \<in> set (dir_blocks f ?zs). whole_block 14 bd"
    unfolding d by (simp add: whole_block_14 length_entry_bytes assms(3))
  have e: "dir_entries f 14 ?zs = (unat i, utf8 name) # replicate 63 (0, [])"
    unfolding dir_entries_def d
    by (simp add: block_entries_one length_entry_bytes assms(3)
        entry_bytes_decode [OF assms(4,5)])
  have v: "\<forall>e \<in> set (dir_entries f 14 ?zs). utf8_valid (snd e)"
    unfolding e using assms(6) by auto
  have "find_in_zones f 14 (utf8 name) ?zs =
      Inr (map_option fst (find (\<lambda>e. snd e = utf8 name) (dir_entries f 14 ?zs)))"
    using w v by (rule find_in_zones_eq)
  then show ?thesis
    unfolding e by simp
qed

text \<open>
  C2. The specification says that when the name is found in the directory, \<open>append\<close> rebuilds the content,
  rewrites the blocks of the file and writes the inode back with the new size and time.
  On \<open>image_G\<close> the file \<open>d/foo\<close> is found and \<open>cat\<close> prints its content \<open>abc\<close>, but
  \<open>append d/foo x\<close> ends with \<open>TypeError\<close> and the image unchanged: \<open>append_to_file\<close>
  calls \<open>read_file_data\<close> with three arguments.
\<close>

theorem C2_append_raises_TypeError:
  "main_cat image_G (utf8 ''d'') (utf8 ''foo'') = Returned (utf8 ''abc'') \<and>
   main_append image_G (utf8 ''d'') (utf8 ''foo'') (utf8 ''x'') 1700000000 =
     (image_G, Raised TypeError)"
proof -
  let ?sb = "sb_example 32 6"
  let ?file = "\<lparr> i_mode = 0x81C0, i_uid = 0, i_size = 3, i_time = 0, i_gid = 0, i_nlinks = 1,
           i_zone = [5, 0, 0, 0, 0, 0, 0, 0, 0] \<rparr>"
  have b3: "file_read image_G (3 * 1024) 1024 = entry_bytes 2 ''d'' @ replicate 1008 0"
    by (simp add: image_G_def file_read_def sb_bytes_def dir_inode_bytes_def
        file_inode_bytes_def entry_bytes_def utf8_def)
  have b4: "file_read image_G (4 * 1024) 1024 = entry_bytes 3 ''foo'' @ replicate 1008 0"
    by (simp add: image_G_def file_read_def sb_bytes_def dir_inode_bytes_def
        file_inode_bytes_def entry_bytes_def utf8_def)
  have b5: "file_read image_G (5 * 1024) 3 = utf8 ''abc''"
    by (simp add: image_G_def file_read_def sb_bytes_def dir_inode_bytes_def
        file_inode_bytes_def entry_bytes_def utf8_def)
  have fd: "find_in_zones image_G 14 (utf8 ''d'') [3, 0, 0, 0, 0, 0, 0, 0, 0] = Inr (Some 2)"
    using find_in_single_entry_block [OF b3] by (simp add: utf8_def)
  have ff: "find_in_zones image_G 14 (utf8 ''foo'') [4, 0, 0, 0, 0, 0, 0, 0, 0] = Inr (Some 3)"
    using find_in_single_entry_block [OF b4] by (simp add: utf8_def)
  have dir: "find_inode_of_directory image_G ?sb (utf8 ''d'') 14 1 = Inr (Some 2)"
    using parse_inode_G(1) fd by (simp add: find_inode_of_directory_def)
  have m: "max_filename_length_of ?sb = Inr 14"
    using max_filename_length_of_eq [of ?sb "0x137F"] by (simp add: sb_example_def)
  have "indirect_blocks_present image_G ?file"
    by (simp add: indirect_blocks_present_def)
  then have "read_file_data image_G ?file =
      Inr (gather image_G (resolved_zones image_G ?file) (i_size ?file))"
    by (intro read_file_data_eq) simp_all
  then have rd: "read_file_data image_G ?file = Inr (utf8 ''abc'')"
    using b5 by (simp add: resolved_zones_def)
  have cat: "cat_file image_G ?sb 2 (utf8 ''foo'') 14 = Returned (utf8 ''abc'')"
    using parse_inode_G(2,3) ff rd by (simp add: cat_file_def)
  have app: "append_to_file image_G ?sb 2 (utf8 ''foo'') (utf8 ''x'') 14 1700000000 =
      (image_G, Raised TypeError)"
    using parse_inode_G(2) _ parse_inode_G(3)
    by (rule append_to_file_raises_TypeError) (use ff in simp)
  show ?thesis
    using read_superblock_G m dir cat app by (simp add: main_cat_def main_append_def)
qed

section \<open>How the error conditions reach the caller\<close>





section \<open>How the error conditions reach the caller: the commands\<close>



























section \<open>Reading a file: indirect blocks\<close>

lemma str_len_examples:
  "str_len (utf8 ''sub'') = 3" "str_len [0xC3, 0xA9] = 1" "str_len [0x80, 0x80, 0xFF] = 3"
  by (simp_all add: seq_len_def lead_len_def utf8_def cont_def)

lemma fetch_indirect_eq:
  "fetch_indirect_block_addresses f z =
     (if block_present f z then Inr (indirect_entries f z) else Inl StructError)"
  by (auto simp: fetch_indirect_block_addresses_def indirect_entries_def Let_def
      block_present_def file_read_def)

lemma fetch_each_eq:
  "fetch_each f as acc =
     (if \<forall>a \<in> set as. block_present f a
      then Inr (acc @ concat (map (indirect_entries f) as)) else Inl StructError)"
  by (induction as arbitrary: acc) (auto simp: fetch_indirect_eq)

lemma fetch_double_eq:
  "fetch_double_indirect_block_addresses f z =
     (if block_present f z \<and> (\<forall>a \<in> set (indirect_entries f z). block_present f a)
      then Inr (concat (map (indirect_entries f) (indirect_entries f z)))
      else Inl StructError)"
  by (simp add: fetch_double_indirect_block_addresses_def fetch_indirect_eq fetch_each_eq)

lemma read_through_cases:
  "k < length (i_zone ino) \<Longrightarrow>
   read_through f ino k fetch (c, r) =
     (if 0 < r \<and> i_zone ino ! k \<noteq> 0
      then (case fetch f (i_zone ino ! k) of
              Inl e \<Rightarrow> Inl e
            | Inr bs \<Rightarrow> Inr (c @ gather f bs r, r - 1024 * length bs))
      else Inr (c, r))"
  by (simp add: read_through_def zone_at_def read_blocks_eq split: sum.splits)

lemma read_file_data_outcome:
  assumes "length (i_zone ino) = 9"
  shows "read_file_data f ino =
     (if needed_blocks_present f ino
      then Inr (gather f (resolved_zones f ino) (i_size ino)) else Inl StructError)"
proof -
  define D where "D = filter (\<lambda>z. z \<noteq> 0) (take 7 (i_zone ino))"
  define r1 where "r1 = i_size ino - 1024 * length D"
  define z7 where "z7 = i_zone ino ! 7"
  define z8 where "z8 = i_zone ino ! 8"
  define I where "I = (if z7 \<noteq> 0 then indirect_entries f z7 else [])"
  define J where
    "J = (if z8 \<noteq> 0 then concat (map (indirect_entries f) (indirect_entries f z8)) else [])"
  define I' where "I' = (if 0 < r1 \<and> z7 \<noteq> 0 then indirect_entries f z7 else [])"
  define r2 where "r2 = r1 - 1024 * length I'"
  define P8 where "P8 \<longleftrightarrow> block_present f z8 \<and> (\<forall>a \<in> set (indirect_entries f z8). block_present f a)"
  have n: "needed_blocks_present f ino \<longleftrightarrow>
      (0 < r1 \<and> z7 \<noteq> 0 \<longrightarrow> block_present f z7) \<and> (0 < r2 \<and> z8 \<noteq> 0 \<longrightarrow> P8)"
    unfolding needed_blocks_present_def Let_def
    by (simp only: D_def r1_def z7_def z8_def I'_def r2_def P8_def)
  have s1: "read_direct f (take 7 (i_zone ino)) [] (i_size ino) = (gather f D (i_size ino), r1)"
    by (simp add: read_direct_eq D_def r1_def)
  have s2: "read_through f ino 7 fetch_indirect_block_addresses (c, r) =
      (if 0 < r \<and> z7 \<noteq> 0
       then (if block_present f z7
             then Inr (c @ gather f (indirect_entries f z7) r,
                       r - 1024 * length (indirect_entries f z7))
             else Inl StructError)
       else Inr (c, r))" for c r
    using assms by (simp add: read_through_cases fetch_indirect_eq z7_def)
  have s3: "read_through f ino 8 fetch_double_indirect_block_addresses (c, r) =
      (if 0 < r \<and> z8 \<noteq> 0
       then (if P8
             then Inr (c @ gather f (concat (map (indirect_entries f) (indirect_entries f z8))) r,
                       r - 1024 * length (concat (map (indirect_entries f) (indirect_entries f z8))))
             else Inl StructError)
       else Inr (c, r))" for c r
    using assms by (simp add: read_through_cases fetch_double_eq z8_def P8_def)
  have rz: "resolved_zones f ino = D @ I @ J"
    by (simp add: resolved_zones_def D_def I_def J_def z7_def z8_def)
  have g: "gather f (D @ I @ J) (i_size ino) =
      gather f D (i_size ino) @ gather f I r1 @ gather f J (r1 - 1024 * length I)"
    by (simp add: gather_append r1_def)
  have gI: "gather f I r1 = gather f I' r1"
    by (cases "0 < r1") (simp_all add: I_def I'_def)
  have gJ: "r1 - 1024 * length I = r2" if "0 < r1"
    using that by (simp add: I_def I'_def r2_def)
  have r20: "r2 = 0" if "r1 = 0"
    using that by (simp add: r2_def)
  have jr: "gather f J (r1 - 1024 * length I) = gather f J r2"
    by (cases "0 < r1") (simp_all add: gJ r20)
  have tot: "gather f (resolved_zones f ino) (i_size ino) =
      gather f D (i_size ino) @ gather f I' r1 @ gather f J r2"
    by (simp only: rz g gI jr)
  show ?thesis
  proof (cases "0 < r1 \<and> z7 \<noteq> 0 \<and> \<not> block_present f z7")
    case True
    then show ?thesis
      by (simp add: read_file_data_def s1 s2 n)
  next
    case False
    then have a: "read_through f ino 7 fetch_indirect_block_addresses
        (gather f D (i_size ino), r1) = Inr (gather f D (i_size ino) @ gather f I' r1, r2)"
      by (auto simp: s2 I'_def r2_def)
    from False have n7: "0 < r1 \<and> z7 \<noteq> 0 \<longrightarrow> block_present f z7"
      by blast
    show ?thesis
    proof (cases "0 < r2 \<and> z8 \<noteq> 0")
      case True
      then have jT: "gather f J r2 =
          gather f (concat (map (indirect_entries f) (indirect_entries f z8))) r2"
        by (simp add: J_def)
      have "read_file_data f ino =
          (if P8 then Inr (gather f D (i_size ino) @ gather f I' r1 @ gather f J r2)
           else Inl StructError)"
        using True by (simp add: read_file_data_def s1 a s3 jT)
      moreover have "needed_blocks_present f ino \<longleftrightarrow> P8"
        using True n7 by (simp add: n)
      ultimately show ?thesis
        by (simp only: tot)
    next
      case False
      then have jF: "gather f J r2 = []"
        by (auto simp: J_def)
      have "read_file_data f ino = Inr (gather f D (i_size ino) @ gather f I' r1 @ gather f J r2)"
        using False by (auto simp: read_file_data_def s1 a s3 jF)
      moreover have "needed_blocks_present f ino"
        using False n7 by (auto simp: n)
      ultimately show ?thesis
        by (simp only: tot if_True)
    qed
  qed
qed


text \<open>
  C9, as the specification states it: when the zones end before \<open>size\<close> bytes are read,
  \<open>read\<close> returns what it has read and does not fail. On an image of four blocks, an
  inode of 2000 bytes with the direct zone 1 and the indirect slot 9 makes
  \<open>read_file_data\<close> read the 1024 bytes of block 1 and then end with \<open>struct.error\<close>:
  the indirect block lies behind the end of the image.
\<close>

theorem C9_truncated_indirect_counterexample:
  "read_file_data (replicate 4096 0xAA)
     \<lparr> i_mode = 0x81C0, i_uid = 0, i_size = 2000, i_time = 0, i_gid = 0, i_nlinks = 1,
       i_zone = [1, 0, 0, 0, 0, 0, 0, 9, 0] \<rparr> = Inl StructError"
proof -
  let ?ino = "\<lparr> i_mode = 0x81C0, i_uid = 0, i_size = 2000, i_time = 0, i_gid = 0, i_nlinks = 1,
       i_zone = [1, 0, 0, 0, 0, 0, 0, 9, 0] \<rparr>"
  have "\<not> needed_blocks_present (replicate 4096 0xAA) ?ino"
    by (simp add: needed_blocks_present_def Let_def block_present_def)
  then show ?thesis
    by (simp add: read_file_data_outcome)
qed

text \<open>
  C9, amended. \<open>read_file_data\<close> resolves the zones in order (direct slots, entries of
  the indirect block, entries of the double indirect blocks), takes
  \<open>min(1024, remaining)\<close> bytes from each resolved block and concatenates them, until
  nothing remains or the zones end; when the zones end first it returns what it has
  read, never more than \<open>size\<close> bytes. This is the result exactly when every indirect
  block that it fetches lies inside the image; when bytes remain and the block of the
  indirect slot, of the double indirect slot or one that the latter names ends behind
  the end of the image, it ends with \<open>struct.error\<close> and returns nothing. For
  \<open>size = 2500\<close> and zones \<open>[10, 11, 12, 0, 0, 0, 0, 0, 0]\<close> on an image that holds
  these blocks the result has 2500 bytes: 1024 of zone 10, 1024 of zone 11 and 452 of
  zone 12.
\<close>

theorem C9_read_result:
  "(length (i_zone ino) = 9 \<longrightarrow>
      read_file_data f ino =
        (if needed_blocks_present f ino
         then Inr (gather f (resolved_zones f ino) (i_size ino)) else Inl StructError) \<and>
      length (gather f (resolved_zones f ino) (i_size ino)) \<le> i_size ino) \<and>
   (i_size ino = 2500 \<and> i_zone ino = [10, 11, 12, 0, 0, 0, 0, 0, 0] \<and> 12740 \<le> length f \<longrightarrow>
      read_file_data f ino =
        Inr (file_read f (10 * 1024) 1024 @ file_read f (11 * 1024) 1024 @
             file_read f (12 * 1024) 452) \<and>
      length (file_read f (10 * 1024) 1024 @ file_read f (11 * 1024) 1024 @
              file_read f (12 * 1024) 452) = 2500)"
proof (intro conjI impI)
  assume "length (i_zone ino) = 9"
  then show "read_file_data f ino =
        (if needed_blocks_present f ino
         then Inr (gather f (resolved_zones f ino) (i_size ino)) else Inl StructError)"
    by (rule read_file_data_outcome)
next
  show "length (gather f (resolved_zones f ino) (i_size ino)) \<le> i_size ino"
    by (rule length_gather_le)
next
  assume a: "i_size ino = 2500 \<and> i_zone ino = [10, 11, 12, 0, 0, 0, 0, 0, 0] \<and> 12740 \<le> length f"
  then have p: "needed_blocks_present f ino" and l: "length (i_zone ino) = 9"
    by (simp_all add: needed_blocks_present_def)
  from a have z: "resolved_zones f ino = [10, 11, 12]"
    by (simp add: resolved_zones_def)
  show "read_file_data f ino =
        Inr (file_read f (10 * 1024) 1024 @ file_read f (11 * 1024) 1024 @
             file_read f (12 * 1024) 452)"
    using a p by (simp add: read_file_data_outcome [OF l] z)
next
  assume a: "i_size ino = 2500 \<and> i_zone ino = [10, 11, 12, 0, 0, 0, 0, 0, 0] \<and> 12740 \<le> length f"
  then show "length (file_read f (10 * 1024) 1024 @ file_read f (11 * 1024) 1024 @
              file_read f (12 * 1024) 452) = 2500"
    by (auto simp: file_read_def)
qed

lemma indirect_entries_I: "indirect_entries image_I 1 = [2]"
proof -
  let ?B = "[2, 0] @ replicate 1022 (0::byte)"
  let ?g = "\<lambda>k. le_nat (take 2 (drop (2 * k) ?B))"
  have b: "file_read image_I (1 * 1024) 1024 = ?B"
    by (simp add: image_I_def file_read_def)
  have u: "[0 ..< 512] = 0 # [Suc 0 ..< 512]"
    by (rule upt_conv_Cons) simp
  have "?g k = 0" if "1 \<le> k" for k
  proof -
    have "drop (2 * k) ?B = drop (2 * k) [2, 0] @ drop (2 * k - length [2, 0::byte]) (replicate 1022 0)"
      by (rule drop_append)
    moreover have "drop (2 * k) [2, 0::byte] = []"
      using that by simp
    ultimately have "drop (2 * k) ?B = replicate (1022 - (2 * k - 2)) 0"
      by simp
    then show ?thesis
      by (simp only: take_replicate le_nat_zeros)
  qed
  then have "filter (\<lambda>a. a \<noteq> 0) (map ?g [Suc 0 ..< 512]) = []"
    by (auto simp: filter_empty_conv)
  moreover have "?g 0 = 2"
    by simp
  ultimately have "filter (\<lambda>a. a \<noteq> 0) (map ?g [0 ..< 512]) = [2]"
    by (simp only: u list.map filter.simps) simp
  then show ?thesis
    unfolding indirect_entries_def b .
qed

theorem C9_read_result_witness:
  "read_file_data image_I
     \<lparr> i_mode = 0x81C0, i_uid = 0, i_size = 1500, i_time = 0, i_gid = 0, i_nlinks = 1,
       i_zone = [0, 0, 0, 0, 0, 0, 0, 1, 0] \<rparr> = Inr (replicate 1024 0xBB) \<and>
   read_file_data (replicate 13312 0xAA)
     \<lparr> i_mode = 0x81C0, i_uid = 0, i_size = 2500, i_time = 0, i_gid = 0, i_nlinks = 1,
       i_zone = [10, 11, 12, 0, 0, 0, 0, 0, 0] \<rparr> = Inr (replicate 2500 0xAA)"
proof -
  let ?i1 = "\<lparr> i_mode = 0x81C0, i_uid = 0, i_size = 1500, i_time = 0, i_gid = 0, i_nlinks = 1,
       i_zone = [0, 0, 0, 0, 0, 0, 0, 1, 0] \<rparr>"
  let ?ino = "\<lparr> i_mode = 0x81C0, i_uid = 0, i_size = 2500, i_time = 0, i_gid = 0, i_nlinks = 1,
       i_zone = [10, 11, 12, 0, 0, 0, 0, 0, 0] \<rparr>"
  let ?f = "replicate 13312 (0xAA :: byte)"
  have l1: "length (i_zone ?i1) = 9" by simp
  have "length image_I = 3072"
    by (simp add: image_I_def)
  then have n1: "needed_blocks_present image_I ?i1"
    using indirect_entries_I by (simp add: needed_blocks_present_def Let_def block_present_def)
  have z1: "resolved_zones image_I ?i1 = [2]"
    using indirect_entries_I by (simp add: resolved_zones_def)
  have b2: "file_read image_I (2 * 1024) 1024 = replicate 1024 0xBB"
    by (simp add: image_I_def file_read_def)
  have "read_file_data image_I ?i1 =
      (if needed_blocks_present image_I ?i1
       then Inr (gather image_I (resolved_zones image_I ?i1) (i_size ?i1)) else Inl StructError)"
    using C9_read_result [of ?i1 image_I] l1 by blast
  then have a: "read_file_data image_I ?i1 = Inr (replicate 1024 0xBB)"
    using n1 b2 z1 by simp
  have h: "i_size ?ino = 2500 \<and> i_zone ?ino = [10, 11, 12, 0, 0, 0, 0, 0, 0] \<and> 12740 \<le> length ?f"
    by simp
  have "read_file_data ?f ?ino =
        Inr (file_read ?f (10 * 1024) 1024 @ file_read ?f (11 * 1024) 1024 @
             file_read ?f (12 * 1024) 452)"
    using C9_read_result [of ?ino ?f] h by blast
  then have b: "read_file_data ?f ?ino = Inr (replicate 2500 0xAA)"
    by (simp add: file_read_def replicate_add [symmetric])
  from a b show ?thesis by blast
qed

end
